theory Spec2Isabelle
  imports Complex_Main
begin

section \<open>Numbers, vectors and quaternions\<close>

text \<open>
  JavaScript numbers are IEEE doubles. Every number of the program is modelled as a
  \<^typ>\<open>real\<close>: arithmetic is exact, there is no NaN and no rounding into Float32Array
  cells. The properties below are structural (which value is written where, which branch
  is taken); none of them is a statement about rounding error.

  The vector and quaternion operations are those of the graphics library the sources
  import as THREE (Vector3 and Quaternion), written out from the library's formulas;
  \<open>applyQuaternion\<close> is taken in the form \<open>q * v * q\<^sup>-\<^sup>1\<close> the library documents.
\<close>

record vec3 =
  vx :: real
  vy :: real
  vz :: real

record quat =
  qx :: real
  qy :: real
  qz :: real
  qw :: real

record pose =
  position :: vec3
  orientation :: quat

record transform =
  translation :: vec3
  rotation :: quat

definition Vector3 :: "real \<Rightarrow> real \<Rightarrow> real \<Rightarrow> vec3" where
  "Vector3 x y z = \<lparr>vx = x, vy = y, vz = z\<rparr>"

definition Quaternion :: "real \<Rightarrow> real \<Rightarrow> real \<Rightarrow> real \<Rightarrow> quat" where
  "Quaternion x y z w = \<lparr>qx = x, qy = y, qz = z, qw = w\<rparr>"

definition identityPose :: pose where
  "identityPose = \<lparr>position = Vector3 0 0 0, orientation = Quaternion 0 0 0 1\<rparr>"

text \<open>Vector3.add, Vector3.sub and Vector3.dot.\<close>

definition addv :: "vec3 \<Rightarrow> vec3 \<Rightarrow> vec3" where
  "addv a b = Vector3 (vx a + vx b) (vy a + vy b) (vz a + vz b)"

definition subVectors :: "vec3 \<Rightarrow> vec3 \<Rightarrow> vec3" where
  "subVectors a b = Vector3 (vx a - vx b) (vy a - vy b) (vz a - vz b)"

definition dot :: "vec3 \<Rightarrow> vec3 \<Rightarrow> real" where
  "dot a b = vx a * vx b + vy a * vy b + vz a * vz b"

text \<open>
  Quaternion.multiplyQuaternions(a, b) is the Hamilton product a * b, and
  q.premultiply(r) sets q to r * q.
\<close>

definition multiplyQuaternions :: "quat \<Rightarrow> quat \<Rightarrow> quat" where
  "multiplyQuaternions a b = Quaternion
     (qx a * qw b + qw a * qx b + qy a * qz b - qz a * qy b)
     (qy a * qw b + qw a * qy b + qz a * qx b - qx a * qz b)
     (qz a * qw b + qw a * qz b + qx a * qy b - qy a * qx b)
     (qw a * qw b - qx a * qx b - qy a * qy b - qz a * qz b)"

definition premultiply :: "quat \<Rightarrow> quat \<Rightarrow> quat" where
  "premultiply q r = multiplyQuaternions r q"

definition qlength :: "quat \<Rightarrow> real" where
  "qlength q = sqrt (qx q * qx q + qy q * qy q + qz q * qz q + qw q * qw q)"

text \<open>Quaternion.normalize: a zero quaternion becomes the identity.\<close>

definition normalize_quat :: "quat \<Rightarrow> quat" where
  "normalize_quat q =
     (let l = qlength q in
      if l = 0 then Quaternion 0 0 0 1
      else Quaternion (qx q * (1 / l)) (qy q * (1 / l)) (qz q * (1 / l)) (qw q * (1 / l)))"

text \<open>
  Vector3.applyQuaternion(q): first quat * vector, then the result times the
  inverse (conjugate) quaternion.
\<close>

definition applyQuaternion :: "vec3 \<Rightarrow> quat \<Rightarrow> vec3" where
  "applyQuaternion v q =
     (let x = vx v; y = vy v; z = vz v;
          ix = qw q * x + qy q * z - qz q * y;
          iy = qw q * y + qz q * x - qx q * z;
          iz = qw q * z + qx q * y - qy q * x;
          iw = - qx q * x - qy q * y - qz q * z
      in Vector3
           (ix * qw q + iw * - qx q + iy * - qz q - iz * - qy q)
           (iy * qw q + iw * - qy q + iz * - qx q - ix * - qz q)
           (iz * qw q + iw * - qz q + ix * - qy q - iy * - qx q))"

section \<open>applyTransform (utils/ros.js)\<close>

definition applyTransform :: "pose \<Rightarrow> transform \<Rightarrow> pose" where
  "applyTransform p t =
     (let currentPosition = Vector3 (vx (position p)) (vy (position p)) (vz (position p));
          currentOrientation = Quaternion (qx (orientation p)) (qy (orientation p))
                                 (qz (orientation p)) (qw (orientation p));
          transformTranslation = Vector3 (vx (translation t)) (vy (translation t))
                                   (vz (translation t));
          transformRotation = Quaternion (qx (rotation t)) (qy (rotation t))
                                (qz (rotation t)) (qw (rotation t));
          currentPosition = applyQuaternion currentPosition transformRotation;
          currentPosition = addv currentPosition transformTranslation;
          currentOrientation = premultiply currentOrientation transformRotation;
          currentOrientation = normalize_quat currentOrientation
      in \<lparr>position = Vector3 (vx currentPosition) (vy currentPosition) (vz currentPosition),
          orientation = Quaternion (qx currentOrientation) (qy currentOrientation)
                          (qz currentOrientation) (qw currentOrientation)\<rparr>)"




section \<open>SceneNode (visualization/SceneNode.js)\<close>

text \<open>
  A SceneNode is a THREE.Object3D with the fields the constructor adds. The transform
  client is an opaque handle; \<open>subscribed\<close> records that \<open>tfClient.subscribe(frameID,
  tfUpdateBound)\<close> was called. A frame id is truthy when it is a non-empty string.
\<close>

type_synonym tfClient = nat

record 'c SceneNode =
  sn_tfClient :: "tfClient option"
  sn_frameID :: "string option"
  initialPose :: pose
  sn_position :: vec3
  sn_quaternion :: quat
  sn_visible :: bool
  sn_children :: "'c list"
  subscribed :: bool

record 'c SceneNodeOptions =
  opt_tfClient :: "tfClient option"
  opt_frameID :: "string option"
  opt_object :: "'c option"
  opt_pose :: "pose option"

definition truthy_string :: "string option \<Rightarrow> bool" where
  "truthy_string s = (case s of None \<Rightarrow> False | Some str \<Rightarrow> str \<noteq> [])"

definition updateObjectPose :: "'c SceneNode \<Rightarrow> pose \<Rightarrow> 'c SceneNode" where
  "updateObjectPose object p =
     object\<lparr>sn_position := Vector3 (vx (position p)) (vy (position p)) (vz (position p)),
            sn_quaternion := normalize_quat (Quaternion (qx (orientation p)) (qy (orientation p))
                                          (qz (orientation p)) (qw (orientation p))),
            sn_visible := True\<rparr>"

definition updatePose :: "'c SceneNode \<Rightarrow> pose \<Rightarrow> 'c SceneNode" where
  "updatePose node p = updateObjectPose node p"

text \<open>The handler made by createTFUpdateHandler, applied to a transform message.\<close>

definition tfUpdateBound :: "'c SceneNode \<Rightarrow> transform \<Rightarrow> 'c SceneNode" where
  "tfUpdateBound sceneNodeInstance msg =
     (let poseTransformed = applyTransform (initialPose sceneNodeInstance) msg
      in updatePose sceneNodeInstance poseTransformed)"

definition SceneNode_setup :: "'c SceneNodeOptions \<Rightarrow> 'c SceneNode" where
  "SceneNode_setup options =
     (let p = (case opt_pose options of None \<Rightarrow> identityPose | Some q \<Rightarrow> q);
          this = \<lparr>sn_tfClient = opt_tfClient options,
                  sn_frameID = opt_frameID options,
                  initialPose = p,
                  sn_position = Vector3 0 0 0,
                  sn_quaternion = Quaternion 0 0 0 1,
                  sn_visible = False,
                  sn_children = (case opt_object options of None \<Rightarrow> [] | Some ob \<Rightarrow> [ob]),
                  subscribed = False\<rparr>;
          this = updatePose this p
      in if opt_tfClient options \<noteq> None \<and> truthy_string (opt_frameID options)
         then this\<lparr>subscribed := True\<rparr> else this)"

text \<open>
  The transform client calls the registered handler once per transform; a node that
  never subscribed receives nothing.
\<close>

fun deliver :: "'c SceneNode \<Rightarrow> transform list \<Rightarrow> 'c SceneNode" where
  "deliver node [] = node"
| "deliver node (t # ts) =
     (if subscribed node then deliver (tfUpdateBound node t) ts else node)"

definition nodePose :: "'c SceneNode \<Rightarrow> pose" where
  "nodePose node = \<lparr>position = sn_position node, orientation = sn_quaternion node\<rparr>"

section \<open>Intersection helpers (utils/geometry.utils.js)\<close>

text \<open>
  A THREE.Ray has an origin and a direction. The helper \<open>intersectPlane\<close> also reads
  a property \<open>precision\<close> of the ray it is given; the library's Ray class defines no such
  property and nothing in the repository assigns one, so reading it yields
  \<open>undefined\<close> (\<open>None\<close>) on every ray made by \<open>new THREE.Ray(origin, direction)\<close> or
  taken from a THREE.Raycaster. A comparison of a number with \<open>undefined\<close> is false.
\<close>

record ray =
  origin :: vec3
  direction :: vec3
  precision :: "real option"

definition Ray :: "vec3 \<Rightarrow> vec3 \<Rightarrow> ray" where
  "Ray orig dir = \<lparr>origin = orig, direction = dir, precision = None\<rparr>"

definition multiplyScalar :: "vec3 \<Rightarrow> real \<Rightarrow> vec3" where
  "multiplyScalar v s = Vector3 (vx v * s) (vy v * s) (vz v * s)"

definition findClosestPoint :: "ray \<Rightarrow> ray \<Rightarrow> real option" where
  "findClosestPoint targetRay mouseRay =
     (let v13 = subVectors (origin targetRay) (origin mouseRay);
          v43 = direction mouseRay;
          v21 = direction targetRay;
          d1343 = dot v13 v43;
          d4321 = dot v43 v21;
          d1321 = dot v13 v21;
          d4343 = dot v43 v43;
          d2121 = dot v21 v21;
          denom = d2121 * d4343 - d4321 * d4321
      in if \<bar>denom\<bar> \<le> 0.0001 then None
         else let numer = d1343 * d4321 - d1321 * d4343 in Some (numer / denom))"

text \<open>
  The result of \<open>intersectPlane\<close>: \<open>undefined\<close>, a point, or a Vector3 object whose
  components come from a division by zero (infinite or NaN in JavaScript).
\<close>

datatype plane_hit = Undefined | Hit vec3 | NonFiniteHit

definition js_less_undefined :: "real \<Rightarrow> real option \<Rightarrow> bool" where
  "js_less_undefined x y = (case y of None \<Rightarrow> False | Some v \<Rightarrow> x < v)"

definition intersectPlane :: "ray \<Rightarrow> vec3 \<Rightarrow> vec3 \<Rightarrow> plane_hit" where
  "intersectPlane mouseRay planeOrigin planeNormal =
     (let vector = subVectors planeOrigin (origin mouseRay);
          dt = dot (direction mouseRay) planeNormal
      in if js_less_undefined \<bar>dt\<bar> (precision mouseRay) then Undefined
         else if dt = 0 then NonFiniteHit
         else let scalar = dot planeNormal vector / dt
              in Hit (addv (origin mouseRay) (multiplyScalar (direction mouseRay) scalar)))"

section \<open>Marker (markers/Marker.js, markers/marker.creators.js)\<close>

record ColorRGBA =
  c_r :: real
  c_g :: real
  c_b :: real
  c_a :: real

record MarkerMessage =
  frame_id :: string
  ns :: string
  marker_id :: int
  mtype :: int
  action :: int
  mpose :: pose
  scale :: vec3
  color :: ColorRGBA
  points :: "vec3 list"

definition MARKER_ARROW :: int where "MARKER_ARROW = 0"
definition MARKER_CUBE :: int where "MARKER_CUBE = 1"
definition MARKER_SPHERE :: int where "MARKER_SPHERE = 2"
definition MARKER_CYLINDER :: int where "MARKER_CYLINDER = 3"
definition MARKER_LINE_STRIP :: int where "MARKER_LINE_STRIP = 4"
definition MARKER_LINE_LIST :: int where "MARKER_LINE_LIST = 5"
definition MARKER_CUBE_LIST :: int where "MARKER_CUBE_LIST = 6"
definition MARKER_SPHERE_LIST :: int where "MARKER_SPHERE_LIST = 7"
definition MARKER_POINTS :: int where "MARKER_POINTS = 8"
definition MARKER_TEXT_VIEW_FACING :: int where "MARKER_TEXT_VIEW_FACING = 9"
definition MARKER_MESH_RESOURCE :: int where "MARKER_MESH_RESOURCE = 10"
definition MARKER_TRIANGLE_LIST :: int where "MARKER_TRIANGLE_LIST = 11"

text \<open>
  The object \<open>createMarkerObject\<close> returns, reduced to what \<open>Marker.update\<close> reads to
  decide its result: the instance count of an instanced mesh, the count and item size of
  the position attribute of a line or point geometry. Every branch of the factory returns
  an object. Materials, colours and the child's own scale are written by \<open>update\<close> but
  never read for its result and are left out.
\<close>

datatype MarkerObject =
    InstancedMesh nat
  | BufferObject nat nat
  | OtherObject

definition createMarkerObject :: "MarkerMessage \<Rightarrow> MarkerObject" where
  "createMarkerObject message =
     (if mtype message = MARKER_LINE_STRIP \<or> mtype message = MARKER_LINE_LIST
         \<or> mtype message = MARKER_POINTS
      then BufferObject (length (points message) * 3 div 3) 3
      else if mtype message = MARKER_CUBE_LIST \<or> mtype message = MARKER_SPHERE_LIST
      then InstancedMesh (length (points message))
      else OtherObject)"

record Marker =
  m_message :: MarkerMessage
  msgScale :: vec3
  msgColor :: ColorRGBA
  m_position :: vec3
  m_quaternion :: quat
  m_children :: "MarkerObject list"

definition setPose :: "Marker \<Rightarrow> pose \<Rightarrow> Marker" where
  "setPose this p =
     this\<lparr>m_position := Vector3 (vx (position p)) (vy (position p)) (vz (position p)),
          m_quaternion := normalize_quat (Quaternion (qx (orientation p)) (qy (orientation p))
                                       (qz (orientation p)) (qw (orientation p)))\<rparr>"

definition Marker_new :: "MarkerMessage \<Rightarrow> Marker" where
  "Marker_new message =
     (let this = \<lparr>m_message = message,
                  msgScale = Vector3 (vx (scale message)) (vy (scale message)) (vz (scale message)),
                  msgColor = color message,
                  m_position = Vector3 0 0 0,
                  m_quaternion = Quaternion 0 0 0 1,
                  m_children = []\<rparr>;
          this = setPose this (mpose message)
      in this\<lparr>m_children := m_children this @ [createMarkerObject message]\<rparr>)"

definition scaleChanged :: "Marker \<Rightarrow> MarkerMessage \<Rightarrow> bool" where
  "scaleChanged this message =
     (\<bar>vx (msgScale this) - vx (scale message)\<bar> > 1 / 1000000 \<or>
      \<bar>vy (msgScale this) - vy (scale message)\<bar> > 1 / 1000000 \<or>
      \<bar>vz (msgScale this) - vz (scale message)\<bar> > 1 / 1000000)"

definition colorDiffers :: "ColorRGBA \<Rightarrow> ColorRGBA \<Rightarrow> bool" where
  "colorDiffers c d = (c_r c \<noteq> c_r d \<or> c_g c \<noteq> c_g d \<or> c_b c \<noteq> c_b d \<or> c_a c \<noteq> c_a d)"

text \<open>
  \<open>Marker.update\<close>: the result and the marker after the call. The second switch reads
  \<open>count\<close> of an instanced mesh and \<open>count * itemSize\<close> of a position attribute. The
  child was built from a message of the same type, so a child of another shape does not
  occur for a marker made by the constructor; the model refuses the update there.
\<close>

definition Marker_update :: "Marker \<Rightarrow> MarkerMessage \<Rightarrow> bool \<times> Marker" where
  "Marker_update this message =
     (if mtype message \<noteq> mtype (m_message this) then (False, this)
      else
        let this = this\<lparr>m_message := message\<rparr>;
            this = setPose this (mpose message)
        in case m_children this of
             [] \<Rightarrow> (False, this)
           | child # rest \<Rightarrow>
               let this = (if colorDiffers (color message) (msgColor this)
                           then this\<lparr>msgColor := color message\<rparr> else this);
                   changed = scaleChanged this message;
                   this = (if changed
                           then this\<lparr>msgScale := Vector3 (vx (scale message)) (vy (scale message))
                                                     (vz (scale message))\<rparr>
                           else this)
               in if changed \<and> mtype message = MARKER_ARROW then (False, this)
                  else if changed \<and> (mtype message = MARKER_TEXT_VIEW_FACING
                                      \<or> mtype message = MARKER_MESH_RESOURCE
                                      \<or> mtype message = MARKER_TRIANGLE_LIST) then (False, this)
                  else if mtype message = MARKER_CUBE_LIST \<or> mtype message = MARKER_SPHERE_LIST
                  then (case child of
                          InstancedMesh cnt \<Rightarrow>
                            if length (points message) \<noteq> cnt then (False, this) else (True, this)
                        | _ \<Rightarrow> (False, this))
                  else if mtype message = MARKER_LINE_STRIP \<or> mtype message = MARKER_LINE_LIST
                          \<or> mtype message = MARKER_POINTS
                  then (case child of
                          BufferObject cnt itemSize \<Rightarrow>
                            if length (points message) * 3 \<noteq> cnt * itemSize then (False, this)
                            else (True, this)
                        | _ \<Rightarrow> (False, this))
                  else (True, this))"

section \<open>MarkerClient (markers/MarkerClient.js)\<close>

text \<open>
  Object identity is modelled by a number given to every SceneNode at construction
  (\<open>nextUid\<close> is the allocation counter). \<open>disposedNodes\<close> lists the nodes whose
  \<open>dispose\<close> has run and \<open>rootChildren\<close> the nodes currently added to the root object.
  The key of a message is the string \<open>ns/id\<close>; since the decimal form of the integer id
  contains no slash the string determines the pair, and the pair is used as the key. The
  table of markers keeps insertion order, as a JavaScript object does.
\<close>

record MarkerNode =
  uid :: nat
  sceneNode :: "Marker SceneNode"
  updatedTime :: nat

type_synonym marker_key = "string \<times> int"

record MarkerClient =
  mc_tfClient :: "tfClient option"
  markers :: "(marker_key \<times> MarkerNode) list"
  rootChildren :: "nat list"
  disposedNodes :: "nat list"
  nextUid :: nat

definition marker_key_of :: "MarkerMessage \<Rightarrow> marker_key" where
  "marker_key_of message = (ns message, marker_id message)"

definition removeMarker :: "MarkerClient \<Rightarrow> marker_key \<Rightarrow> MarkerClient" where
  "removeMarker this key =
     (case map_of (markers this) key of
        None \<Rightarrow> this
      | Some markerNode \<Rightarrow>
          this\<lparr>disposedNodes := disposedNodes this @ [uid markerNode],
               rootChildren := removeAll (uid markerNode) (rootChildren this),
               markers := filter (\<lambda>kv. fst kv \<noteq> key) (markers this)\<rparr>)"

definition removeAllMarkers :: "MarkerClient \<Rightarrow> MarkerClient" where
  "removeAllMarkers this =
     (let this = fold (\<lambda>key c. removeMarker c key) (map fst (markers this)) this
      in this\<lparr>markers := []\<rparr>)"

definition setMarker :: "marker_key \<Rightarrow> MarkerNode \<Rightarrow> (marker_key \<times> MarkerNode) list
                           \<Rightarrow> (marker_key \<times> MarkerNode) list" where
  "setMarker key mn tbl =
     (if key \<in> fst ` set tbl
      then map (\<lambda>kv. if fst kv = key then (key, mn) else kv) tbl
      else tbl @ [(key, mn)])"

text \<open>
  \<open>processMessage\<close>; \<open>now\<close> is the value of \<open>new Date().getTime()\<close> during the call.
\<close>

definition MarkerClient_processMessage :: "MarkerClient \<Rightarrow> MarkerMessage \<Rightarrow> nat \<Rightarrow> MarkerClient" where
  "MarkerClient_processMessage this message now =
     (let key = marker_key_of message in
      if action message = 0 then
        let (updated, this) =
              (case map_of (markers this) key of
                 None \<Rightarrow> (False, this)
               | Some mn \<Rightarrow>
                   let (updated, mn) =
                         (case sn_children (sceneNode mn) of
                            [] \<Rightarrow> (False, mn)
                          | marker # rest \<Rightarrow>
                              let (u, marker) = Marker_update marker message
                              in (u, mn\<lparr>sceneNode := (sceneNode mn)\<lparr>sn_children := marker # rest\<rparr>\<rparr>))
                   in if \<not> updated then (updated, removeMarker this key)
                      else (updated, this\<lparr>markers :=
                              setMarker key (mn\<lparr>updatedTime := now\<rparr>) (markers this)\<rparr>));
            this =
              (if \<not> updated then
                 let newMarker = Marker_new message;
                     newNode = SceneNode_setup
                                   \<lparr>opt_tfClient = mc_tfClient this,
                                    opt_frameID = Some (frame_id message),
                                    opt_object = Some newMarker,
                                    opt_pose = Some (mpose message)\<rparr>;
                     mn = \<lparr>uid = nextUid this, sceneNode = newNode, updatedTime = now\<rparr>
                 in this\<lparr>markers := setMarker key mn (markers this),
                         rootChildren := rootChildren this @ [uid mn],
                         nextUid := Suc (nextUid this)\<rparr>
               else this)
        in (case map_of (markers this) key of
              None \<Rightarrow> this
            | Some mn \<Rightarrow> this\<lparr>markers := setMarker key (mn\<lparr>updatedTime := now\<rparr>) (markers this)\<rparr>)
      else if action message = 2 then removeMarker this key
      else if action message = 3 then removeAllMarkers this
      else this)"

text \<open>
  The world pose of a child object under its parent node, both of unit scale: the
  library multiplies the parent's world matrix by the child's local matrix, which for
  rotations and translations is the parent's rotation applied to the child's position,
  plus the parent's position, and the product of the two rotations.
\<close>

definition composePose :: "pose \<Rightarrow> pose \<Rightarrow> pose" where
  "composePose parent child =
     \<lparr>position = addv (applyQuaternion (position child) (orientation parent)) (position parent),
      orientation = multiplyQuaternions (orientation parent) (orientation child)\<rparr>"

definition markerPose :: "Marker \<Rightarrow> pose" where
  "markerPose m = \<lparr>position = m_position m, orientation = m_quaternion m\<rparr>"

definition markerWorldPose :: "MarkerNode \<Rightarrow> pose option" where
  "markerWorldPose mn =
     (case sn_children (sceneNode mn) of
        [] \<Rightarrow> None
      | marker # rest \<Rightarrow> Some (composePose (nodePose (sceneNode mn)) (markerPose marker)))"

definition identityTransform :: transform where
  "identityTransform = \<lparr>translation = Vector3 0 0 0, rotation = Quaternion 0 0 0 1\<rparr>"

section \<open>InteractiveMarker (interactivemarkers/InteractiveMarker.js)\<close>

text \<open>
  The drag state of an interactive marker. \<open>serverPosesApplied\<close> is not a field of the
  source: it lists, in order, the poses copied into the marker by the non-dragging branch
  of \<open>onServerSetPose\<close>, so that how often a server pose was applied can be stated.
  \<open>feedback\<close> lists the types of the events dispatched by \<open>feedbackEvent\<close>. The world
  pose and the pointer event stored by \<open>startDrag\<close> feed only the pointer-move handlers
  and are left out.
\<close>

record PoseEvent =
  ev_pose :: pose

record InteractiveMarker =
  dragging :: bool
  im_position :: vec3
  im_quaternion :: quat
  dragStart_position :: vec3
  dragStart_orientation :: quat
  bufferedPoseEvent :: "PoseEvent option"
  serverPosesApplied :: "pose list"
  feedback :: "string list"

definition feedbackEvent :: "string \<Rightarrow> InteractiveMarker \<Rightarrow> InteractiveMarker" where
  "feedbackEvent ty this = this\<lparr>feedback := feedback this @ [ty]\<rparr>"

definition onServerSetPose :: "InteractiveMarker \<Rightarrow> PoseEvent option \<Rightarrow> InteractiveMarker" where
  "onServerSetPose this event =
     (case event of
        None \<Rightarrow> this
      | Some e \<Rightarrow>
          if dragging this then this\<lparr>bufferedPoseEvent := Some e\<rparr>
          else this\<lparr>im_position := position (ev_pose e),
                    im_quaternion := orientation (ev_pose e),
                    serverPosesApplied := serverPosesApplied this @ [ev_pose e]\<rparr>)"

definition startDrag :: "InteractiveMarker \<Rightarrow> int \<Rightarrow> InteractiveMarker" where
  "startDrag this button =
     (if button = 0 then
        feedbackEvent ''user-mousedown''
          (this\<lparr>dragging := True,
                dragStart_position := im_position this,
                dragStart_orientation := im_quaternion this\<rparr>)
      else this)"

definition stopDrag :: "InteractiveMarker \<Rightarrow> int \<Rightarrow> InteractiveMarker" where
  "stopDrag this button =
     (if button = 0 then
        let this = this\<lparr>dragging := False\<rparr>;
            this = onServerSetPose this (bufferedPoseEvent this);
            this = this\<lparr>bufferedPoseEvent := None\<rparr>
        in feedbackEvent ''user-mouseup'' this
      else this)"

definition setPosition :: "InteractiveMarker \<Rightarrow> vec3 \<Rightarrow> InteractiveMarker" where
  "setPosition this p = feedbackEvent ''user-pose-change'' (this\<lparr>im_position := p\<rparr>)"

definition setOrientation :: "InteractiveMarker \<Rightarrow> quat \<Rightarrow> InteractiveMarker" where
  "setOrientation this q = feedbackEvent ''user-pose-change'' (this\<lparr>im_quaternion := normalize_quat q\<rparr>)"

text \<open>Server pose events delivered one after the other.\<close>

fun serverPushes :: "InteractiveMarker \<Rightarrow> PoseEvent list \<Rightarrow> InteractiveMarker" where
  "serverPushes this [] = this"
| "serverPushes this (e # es) = serverPushes (onServerSetPose this (Some e)) es"

section \<open>Points (sensors/Points.js)\<close>

text \<open>
  A Float32Array is a list of fixed length; a store at an index outside the array is
  ignored, as JavaScript does for typed arrays. A count handed to \<open>update\<close> is a
  JavaScript number, which in the decoders is a natural number or NaN.
\<close>

definition ta_store :: "real list \<Rightarrow> nat \<Rightarrow> real \<Rightarrow> real list" where
  "ta_store arr k v = (if k < length arr then arr[k := v] else arr)"

datatype jsnum = Num nat | NaN

text \<open>\<open>a % b === 0\<close> on natural numbers: \<open>a % 0\<close> is NaN, which is not 0.\<close>

definition js_mod_is_zero :: "nat \<Rightarrow> nat \<Rightarrow> bool" where
  "js_mod_is_zero a b = (b \<noteq> 0 \<and> a mod b = 0)"

record PointField =
  f_name :: string
  f_offset :: nat
  f_datatype :: nat

record Points =
  p_tfClient :: "tfClient option"
  max_pts :: nat
  pointRatio :: nat
  messageRatio :: nat
  messageCount :: nat
  colorsrc :: "string option"
  sn :: "unit SceneNode option"
  p_fields :: "string \<rightharpoonup> PointField"
  positions :: "real list option"
  colors :: "real list option"
  getColor :: "(nat \<times> nat) option"
  count :: "jsnum option"

record PointsOptions =
  o_tfClient :: "tfClient option"
  o_max_pts :: "nat option"
  o_pointRatio :: "nat option"
  o_messageRatio :: "nat option"
  o_colorsrc :: "string option"

definition default_to :: "'a \<Rightarrow> 'a option \<Rightarrow> 'a" where
  "default_to d v = (case v of None \<Rightarrow> d | Some x \<Rightarrow> x)"

definition Points_new :: "PointsOptions \<Rightarrow> Points" where
  "Points_new options =
     \<lparr>p_tfClient = o_tfClient options,
      max_pts = default_to 10000 (o_max_pts options),
      pointRatio = default_to 1 (o_pointRatio options),
      messageRatio = default_to 1 (o_messageRatio options),
      messageCount = 0,
      colorsrc = o_colorsrc options,
      sn = None,
      p_fields = Map.empty,
      positions = None,
      colors = None,
      getColor = None,
      count = None\<rparr>"

text \<open>
  \<open>getColor\<close> is the reader \<open>colorFunctions[datatype - 1]\<close>, a closure over the colour
  field's offset: it is kept as the datatype code and that offset. The table has eight
  entries, so any other code selects \<open>undefined\<close>.
\<close>

definition colorFunctions :: "nat \<Rightarrow> nat \<Rightarrow> (nat \<times> nat) option" where
  "colorFunctions offset datatype =
     (if 1 \<le> datatype \<and> datatype \<le> 8 then Some (datatype, offset) else None)"

definition detectColorsrc :: "(string \<rightharpoonup> PointField) \<Rightarrow> string option" where
  "detectColorsrc flds =
     (case filter (\<lambda>fieldName. flds fieldName \<noteq> None) [''rgb'', ''rgb_float'', ''rgba''] of
        [] \<Rightarrow> None
      | fieldName # rest \<Rightarrow> Some fieldName)"

definition Points_setup :: "Points \<Rightarrow> string \<Rightarrow> PointField list \<Rightarrow> bool \<times> Points" where
  "Points_setup this frame flds =
     (let this =
        (if sn this = None then
           let fobj = fold (\<lambda>field m. m(f_name field \<mapsto> field)) flds Map.empty;
               this = this\<lparr>p_fields := fobj,
                          positions := Some (replicate (max_pts this * 3) 0)\<rparr>;
               this = (if \<not> truthy_string (colorsrc this)
                       then (case detectColorsrc fobj of
                               None \<Rightarrow> this
                             | Some fieldName \<Rightarrow> this\<lparr>colorsrc := Some fieldName\<rparr>)
                       else this);
               this = (if truthy_string (colorsrc this)
                       then (case fobj (the (colorsrc this)) of
                               None \<Rightarrow> this
                             | Some field \<Rightarrow>
                                 this\<lparr>colors := Some (replicate (max_pts this * 3) 0),
                                      getColor := colorFunctions (f_offset field) (f_datatype field)\<rparr>)
                       else this)
           in this\<lparr>sn := Some (SceneNode_setup
                                 \<lparr>opt_tfClient = p_tfClient this,
                                  opt_frameID = Some frame,
                                  opt_object = Some (),
                                  opt_pose = None\<rparr>)\<rparr>
         else this);
          shouldProcess = js_mod_is_zero (messageCount this) (messageRatio this)
      in (shouldProcess, this\<lparr>messageCount := Suc (messageCount this)\<rparr>))"

definition Points_update :: "Points \<Rightarrow> jsnum \<Rightarrow> Points" where
  "Points_update this n = this\<lparr>count := Some n\<rparr>"

section \<open>LaserScan (sensors/LaserScan.js)\<close>

record LaserScanMessage =
  l_frame_id :: string
  angle_min :: real
  angle_increment :: real
  range_min :: real
  range_max :: real
  ranges :: "real list"

record LaserScan =
  ls_messageRatio :: nat
  messageCounter :: nat
  ls_points :: Points

text \<open>
  The constructor takes \<open>messageRatio\<close> out of the options before it passes the rest to
  Points, so the Points object always has its default message ratio.
\<close>

definition LaserScan_new :: "PointsOptions \<Rightarrow> LaserScan" where
  "LaserScan_new options =
     \<lparr>ls_messageRatio = default_to 1 (o_messageRatio options),
      messageCounter = 0,
      ls_points = Points_new (options\<lparr>o_messageRatio := None\<rparr>)\<rparr>"

text \<open>
  The loop of \<open>processMessage\<close> over the sample index \<open>i\<close>, with the write index \<open>j\<close>
  and the position array. With a point ratio of 0 the index never advances and the loop
  does not end: the result \<open>None\<close>.
\<close>

partial_function (option) scanLoop ::
  "LaserScanMessage \<Rightarrow> nat \<Rightarrow> nat \<Rightarrow> nat \<Rightarrow> real list \<Rightarrow> (nat \<times> real list) option" where
  "scanLoop message ratio i j arr =
     (if i < length (ranges message) then
        (if range_min message \<le> ranges message ! i \<and> ranges message ! i \<le> range_max message
         then scanLoop message ratio (i + ratio) (j + 3)
                (ta_store
                  (ta_store
                    (ta_store arr j
                      (ranges message ! i * cos (angle_min message + real i * angle_increment message)))
                    (j + 1)
                    (ranges message ! i * sin (angle_min message + real i * angle_increment message)))
                  (j + 2) 0)
         else scanLoop message ratio (i + ratio) j arr)
      else Some (j, arr))"

definition LaserScan_processMessage :: "LaserScan \<Rightarrow> LaserScanMessage \<Rightarrow> LaserScan option" where
  "LaserScan_processMessage this message =
     (let this = this\<lparr>messageCounter := Suc (messageCounter this)\<rparr> in
      if \<not> js_mod_is_zero (messageCounter this) (ls_messageRatio this) then Some this
      else
        let (ok, pts) = Points_setup (ls_points this) (l_frame_id message) [];
            this = this\<lparr>ls_points := pts\<rparr>
        in if \<not> ok then Some this
           else case positions pts of
                  None \<Rightarrow> Some this
                | Some arr \<Rightarrow>
                    (case scanLoop message (pointRatio pts) 0 0 arr of
                       None \<Rightarrow> None
                     | Some (j, arr') \<Rightarrow>
                         Some (this\<lparr>ls_points :=
                                 Points_update (pts\<lparr>positions := Some arr'\<rparr>) (Num (j div 3))\<rparr>)))"

section \<open>PointCloud2 (sensors/PointCloud2.js)\<close>















section \<open>Vocabulary of the properties\<close>

text \<open>
  The sample indices the LaserScan loop visits, from \<open>i\<close> in steps of the point ratio
  below \<open>n\<close>; whether the range at an index is within the bounds of the message; the
  three coordinates written for an accepted sample; and the accepted samples of a message.
\<close>

function idxFrom :: "nat \<Rightarrow> nat \<Rightarrow> nat \<Rightarrow> nat list" where
  "idxFrom i ratio n = (if i < n \<and> 0 < ratio then i # idxFrom (i + ratio) ratio n else [])"
  by pat_completeness auto
termination
  by (relation "measure (\<lambda>(i, ratio, n). n - i)") auto

declare idxFrom.simps [simp del]

definition inRange :: "LaserScanMessage \<Rightarrow> nat \<Rightarrow> bool" where
  "inRange message i =
     (range_min message \<le> ranges message ! i \<and> ranges message ! i \<le> range_max message)"

definition samplePoint :: "LaserScanMessage \<Rightarrow> nat \<Rightarrow> real list" where
  "samplePoint message i =
     [ranges message ! i * cos (angle_min message + real i * angle_increment message),
      ranges message ! i * sin (angle_min message + real i * angle_increment message),
      0]"

definition acceptedSamples :: "LaserScanMessage \<Rightarrow> nat \<Rightarrow> nat list" where
  "acceptedSamples message ratio =
     filter (inRange message) (idxFrom 0 ratio (length (ranges message)))"

text \<open>Consecutive stores of a list of values from index \<open>j\<close> on.\<close>

fun storeFrom :: "real list \<Rightarrow> nat \<Rightarrow> real list \<Rightarrow> real list" where
  "storeFrom arr j [] = arr"
| "storeFrom arr j (v # vs) = storeFrom (ta_store arr j v) (Suc j) vs"

text \<open>
  The message pose as both the SceneNode and the Marker hold it after construction: the
  position as given, the orientation normalised.
\<close>

definition normalizedPose :: "pose \<Rightarrow> pose" where
  "normalizedPose p = \<lparr>position = position p, orientation = normalize_quat (orientation p)\<rparr>"

text \<open>
  The marker types whose geometry depends on the number of points, and those for which a
  change of scale makes \<open>update\<close> refuse. \<open>updateCompatible_claim\<close> is the condition for
  an update in place in the words of the claim, between the previous message of the marker
  and the new one; \<open>updateCompatible\<close> is the same condition with the scale test the code
  makes, against the scale the marker has recorded. A marker is consistent when its child
  is the object the factory builds for its current message, and \<open>updatedInPlace\<close> says that
  after the message the key holds a node of the same identity and no node was disposed.
\<close>

definition pointCountSensitive :: "int \<Rightarrow> bool" where
  "pointCountSensitive t =
     (t = MARKER_LINE_STRIP \<or> t = MARKER_LINE_LIST \<or> t = MARKER_POINTS
      \<or> t = MARKER_CUBE_LIST \<or> t = MARKER_SPHERE_LIST)"

definition rebuildOnScale :: "int \<Rightarrow> bool" where
  "rebuildOnScale t =
     (t = MARKER_ARROW \<or> t = MARKER_TEXT_VIEW_FACING \<or> t = MARKER_MESH_RESOURCE
      \<or> t = MARKER_TRIANGLE_LIST)"

definition updateCompatible_claim :: "MarkerMessage \<Rightarrow> MarkerMessage \<Rightarrow> bool" where
  "updateCompatible_claim previous message =
     (mtype message = mtype previous
      \<and> (pointCountSensitive (mtype message)
           \<longrightarrow> length (points message) = length (points previous))
      \<and> \<not> (rebuildOnScale (mtype message) \<and> scale message \<noteq> scale previous))"

definition updateCompatible :: "Marker \<Rightarrow> MarkerMessage \<Rightarrow> bool" where
  "updateCompatible marker message =
     (mtype message = mtype (m_message marker)
      \<and> (pointCountSensitive (mtype message)
           \<longrightarrow> length (points message) = length (points (m_message marker)))
      \<and> \<not> (rebuildOnScale (mtype message) \<and> scaleChanged marker message))"

definition markerConsistent :: "Marker \<Rightarrow> bool" where
  "markerConsistent marker = (m_children marker = [createMarkerObject (m_message marker)])"

definition updatedInPlace :: "MarkerClient \<Rightarrow> MarkerMessage \<Rightarrow> nat \<Rightarrow> bool" where
  "updatedInPlace this message now =
     (case (map_of (markers this) (marker_key_of message),
            map_of (markers (MarkerClient_processMessage this message now)) (marker_key_of message)) of
        (Some old, Some new) \<Rightarrow>
          uid new = uid old
          \<and> disposedNodes (MarkerClient_processMessage this message now) = disposedNodes this
      | _ \<Rightarrow> False)"

text \<open>
  The node \<open>processMessage\<close> constructs for a message: a fresh identity, a SceneNode made
  from the message's frame and pose, holding a new Marker made from the message.
\<close>

definition newMarkerNode :: "MarkerClient \<Rightarrow> MarkerMessage \<Rightarrow> nat \<Rightarrow> MarkerNode" where
  "newMarkerNode mc message now =
     \<lparr>uid = nextUid mc,
      sceneNode = SceneNode_setup \<lparr>opt_tfClient = mc_tfClient mc,
                                  opt_frameID = Some (frame_id message),
                                  opt_object = Some (Marker_new message),
                                  opt_pose = Some (mpose message)\<rparr>,
      updatedTime = now\<rparr>"

text \<open>
  The invariant of a MarkerClient: every live node has an identity already allocated and
  holds one consistent marker.
\<close>

definition clientInv :: "MarkerClient \<Rightarrow> bool" where
  "clientInv this =
     list_all (\<lambda>kv. uid (snd kv) < nextUid this
                    \<and> (case sn_children (sceneNode (snd kv)) of
                         [marker] \<Rightarrow> markerConsistent marker
                       | _ \<Rightarrow> False))
       (markers this)"

text \<open>Inputs of the examples.\<close>
definition emptyClient :: MarkerClient where
  "emptyClient =
     \<lparr>mc_tfClient = Some 0, markers = [], rootChildren = [], disposedNodes = [], nextUid = 0\<rparr>"

definition exampleArrow :: "real \<Rightarrow> MarkerMessage" where
  "exampleArrow sx =
     \<lparr>frame_id = ''map'', ns = ''demo'', marker_id = 1, mtype = MARKER_ARROW, action = 0,
      mpose = \<lparr>position = Vector3 1 0 0, orientation = Quaternion 0 0 0 1\<rparr>,
      scale = Vector3 sx 1 1,
      color = \<lparr>c_r = 1, c_g = 0, c_b = 0, c_a = 1\<rparr>,
      points = []\<rparr>"

definition exampleLineStrip :: "nat \<Rightarrow> MarkerMessage" where
  "exampleLineStrip k =
     \<lparr>frame_id = ''map'', ns = ''demo'', marker_id = 2, mtype = MARKER_LINE_STRIP, action = 0,
      mpose = \<lparr>position = Vector3 1 0 0, orientation = Quaternion 0 0 0 1\<rparr>,
      scale = Vector3 1 1 1,
      color = \<lparr>c_r = 1, c_g = 0, c_b = 0, c_a = 1\<rparr>,
      points = replicate k (Vector3 0 0 0)\<rparr>"


definition exampleMarker :: InteractiveMarker where
  "exampleMarker =
     \<lparr>dragging = False, im_position = Vector3 0 0 0, im_quaternion = Quaternion 0 0 0 1,
      dragStart_position = Vector3 0 0 0, dragStart_orientation = Quaternion 0 0 0 1,
      bufferedPoseEvent = None, serverPosesApplied = [], feedback = []\<rparr>"

definition examplePoseEvent :: "real \<Rightarrow> PoseEvent" where
  "examplePoseEvent x =
     \<lparr>ev_pose = \<lparr>position = Vector3 x 0 0, orientation = Quaternion 0 0 0 1\<rparr>\<rparr>"

definition exampleScan :: "real list \<Rightarrow> LaserScanMessage" where
  "exampleScan rs =
     \<lparr>l_frame_id = ''laser_frame'', angle_min = 0, angle_increment = 0,
      range_min = 1, range_max = 10, ranges = rs\<rparr>"

definition exampleOptions :: "nat \<Rightarrow> PointsOptions" where
  "exampleOptions cap =
     \<lparr>o_tfClient = Some 0, o_max_pts = Some cap, o_pointRatio = None,
      o_messageRatio = None, o_colorsrc = None\<rparr>"




section \<open>Properties\<close>

subsection \<open>Quaternions and pose composition\<close>

lemma Vector3_eta: "Vector3 (vx v) (vy v) (vz v) = v"
  by (simp add: Vector3_def)

lemma Quaternion_eta: "Quaternion (qx q) (qy q) (qz q) (qw q) = q"
  by (simp add: Quaternion_def)

lemma qlength_nonneg: "0 \<le> qlength q"
  by (simp add: qlength_def)

lemma qlength_normalize: "qlength (normalize_quat q) = 1"
proof (cases "qlength q = 0")
  case True
  then show ?thesis by (simp add: normalize_quat_def qlength_def Quaternion_def Let_def)
next
  case False
  define l where "l = qlength q"
  have lpos: "0 < l" using False qlength_nonneg[of q] by (simp add: l_def)
  have sq: "qx q * qx q + qy q * qy q + qz q * qz q + qw q * qw q = l * l"
  proof -
    have "0 \<le> qx q * qx q + qy q * qy q + qz q * qz q + qw q * qw q" by simp
    then show ?thesis unfolding l_def qlength_def by simp
  qed
  have "(qx q * (1 / l)) * (qx q * (1 / l)) + (qy q * (1 / l)) * (qy q * (1 / l))
        + (qz q * (1 / l)) * (qz q * (1 / l)) + (qw q * (1 / l)) * (qw q * (1 / l))
        = (qx q * qx q + qy q * qy q + qz q * qz q + qw q * qw q) * (1 / (l * l))"
    by (simp add: algebra_simps)
  also have "\<dots> = 1" using sq lpos by simp
  finally have "qlength (Quaternion (qx q * (1 / l)) (qy q * (1 / l)) (qz q * (1 / l)) (qw q * (1 / l))) = 1"
    by (simp add: qlength_def Quaternion_def)
  then show ?thesis using False by (simp add: normalize_quat_def l_def Let_def)
qed

lemma normalize_unit: "qlength q = 1 \<Longrightarrow> normalize_quat q = q"
  by (simp add: normalize_quat_def Quaternion_eta Let_def)

lemma normalize_idem: "normalize_quat (normalize_quat q) = normalize_quat q"
  by (rule normalize_unit) (rule qlength_normalize)

lemma applyTransform_eq:
  "applyTransform p t =
     \<lparr>position = addv (applyQuaternion (position p) (rotation t)) (translation t),
      orientation = normalize_quat (multiplyQuaternions (rotation t) (orientation p))\<rparr>"
  by (simp add: applyTransform_def Let_def Vector3_eta Quaternion_eta premultiply_def)

lemma nodePose_tfUpdateBound:
  "nodePose (tfUpdateBound nd t) = applyTransform (initialPose nd) t"
  by (simp add: tfUpdateBound_def updatePose_def updateObjectPose_def nodePose_def Let_def
      Vector3_eta Quaternion_eta applyTransform_eq normalize_idem)

lemma tfUpdateBound_keeps:
  "initialPose (tfUpdateBound nd t) = initialPose nd"
  "subscribed (tfUpdateBound nd t) = subscribed nd"
  by (simp_all add: tfUpdateBound_def updatePose_def updateObjectPose_def Let_def)

lemma deliver_keeps:
  "initialPose (deliver nd ts) = initialPose nd \<and> subscribed (deliver nd ts) = subscribed nd"
  by (induction ts arbitrary: nd) (simp_all add: tfUpdateBound_keeps)

lemma deliver_last:
  "subscribed nd \<Longrightarrow> ts \<noteq> [] \<Longrightarrow>
   nodePose (deliver nd ts) = applyTransform (initialPose nd) (last ts)"
proof (induction ts arbitrary: nd)
  case Nil
  then show ?case by simp
next
  case (Cons t ts)
  show ?case
  proof (cases ts)
    case Nil
    then show ?thesis using Cons.prems by (simp add: nodePose_tfUpdateBound)
  next
    case (Cons u us)
    then have "nodePose (deliver (tfUpdateBound nd t) ts)
               = applyTransform (initialPose (tfUpdateBound nd t)) (last ts)"
      using Cons.IH[of "tfUpdateBound nd t"] \<open>subscribed nd\<close>
      by (simp add: tfUpdateBound_keeps)
    then show ?thesis using Cons \<open>subscribed nd\<close> by (simp add: tfUpdateBound_keeps)
  qed
qed

lemma setup_subscribed:
  "opt_tfClient options \<noteq> None \<Longrightarrow> truthy_string (opt_frameID options) \<Longrightarrow>
   subscribed (SceneNode_setup options)"
  by (simp add: SceneNode_setup_def Let_def)

lemma setup_initialPose:
  "initialPose (SceneNode_setup options) = (case opt_pose options of None \<Rightarrow> identityPose | Some q \<Rightarrow> q)"
  by (simp add: SceneNode_setup_def Let_def updatePose_def updateObjectPose_def)

lemma applyQuaternion_identity: "applyQuaternion v (Quaternion 0 0 0 1) = v"
  by (simp add: applyQuaternion_def Quaternion_def Let_def Vector3_eta)

lemma setup_visible: "sn_visible (SceneNode_setup options)"
  by (simp add: SceneNode_setup_def Let_def updatePose_def updateObjectPose_def)




text \<open>
  Claim C1. For a SceneNode constructed with a transform client and a frame id, hence
  subscribed, and any non-empty sequence of transforms delivered to it, the node's pose
  afterwards is \<open>applyTransform\<close> of its initial pose and the last transform. Hence
  delivering the same transform \<open>N \<ge> 1\<close> times gives the pose of delivering it once, and
  the translation (1,0,0) followed by the translation (2,0,0), both with identity
  rotation, puts the node at its initial position plus (2,0,0): at (2,0,0) for the
  default (identity) initial pose, not at (3,0,0).
\<close>

theorem SceneNode_pose_from_last_transform:
  assumes "opt_tfClient options \<noteq> None" and "truthy_string (opt_frameID options)"
  shows "initialPose (SceneNode_setup options)
           = (case opt_pose options of None \<Rightarrow> identityPose | Some q \<Rightarrow> q)
       \<and> (ts \<noteq> [] \<longrightarrow>
            nodePose (deliver (SceneNode_setup options) ts)
              = applyTransform (initialPose (SceneNode_setup options)) (last ts))
       \<and> (1 \<le> N \<longrightarrow>
            nodePose (deliver (SceneNode_setup options) (replicate N t))
              = nodePose (deliver (SceneNode_setup options) [t]))
       \<and> position (nodePose (deliver (SceneNode_setup options)
            [\<lparr>translation = Vector3 1 0 0, rotation = Quaternion 0 0 0 1\<rparr>,
             \<lparr>translation = Vector3 2 0 0, rotation = Quaternion 0 0 0 1\<rparr>]))
           = addv (position (initialPose (SceneNode_setup options))) (Vector3 2 0 0)
       \<and> (opt_pose options = None \<or> opt_pose options = Some identityPose \<longrightarrow>
            position (nodePose (deliver (SceneNode_setup options)
              [\<lparr>translation = Vector3 1 0 0, rotation = Quaternion 0 0 0 1\<rparr>,
               \<lparr>translation = Vector3 2 0 0, rotation = Quaternion 0 0 0 1\<rparr>]))
             = Vector3 2 0 0)"
proof -
  let ?n = "SceneNode_setup options"
  have sub: "subscribed ?n" using assms by (rule setup_subscribed)
  have last: "nodePose (deliver ?n us) = applyTransform (initialPose ?n) (last us)"
    if "us \<noteq> []" for us
    using sub that by (rule deliver_last)
  have rep: "nodePose (deliver ?n (replicate N t)) = nodePose (deliver ?n [t])" if "1 \<le> N"
  proof -
    from that have ne: "replicate N t \<noteq> []" by auto
    then have "last (replicate N t) = t" by simp
    with last[OF ne] last[of "[t]"] show ?thesis by simp
  qed
  have ex: "position (nodePose (deliver ?n
            [\<lparr>translation = Vector3 1 0 0, rotation = Quaternion 0 0 0 1\<rparr>,
             \<lparr>translation = Vector3 2 0 0, rotation = Quaternion 0 0 0 1\<rparr>]))
           = addv (position (initialPose ?n)) (Vector3 2 0 0)"
    using last[of "[\<lparr>translation = Vector3 1 0 0, rotation = Quaternion 0 0 0 1\<rparr>,
             \<lparr>translation = Vector3 2 0 0, rotation = Quaternion 0 0 0 1\<rparr>]"]
    by (simp add: applyTransform_eq applyQuaternion_identity del: deliver.simps)
  have idp: "addv (position (initialPose ?n)) (Vector3 2 0 0) = Vector3 2 0 0"
    if "opt_pose options = None \<or> opt_pose options = Some identityPose"
    using that by (auto simp: setup_initialPose identityPose_def addv_def Vector3_def)
  show ?thesis using last rep ex idp by (simp add: setup_initialPose del: deliver.simps)
qed

theorem SceneNode_pose_from_last_transform_witness:
  "nodePose (deliver (SceneNode_setup
      \<lparr>opt_tfClient = Some 0, opt_frameID = Some ''laser_frame'',
       opt_object = (None :: unit option), opt_pose = None\<rparr>)
      [\<lparr>translation = Vector3 1 0 0, rotation = Quaternion 0 0 0 1\<rparr>,
       \<lparr>translation = Vector3 2 0 0, rotation = Quaternion 0 0 0 1\<rparr>])
   = applyTransform identityPose \<lparr>translation = Vector3 2 0 0, rotation = Quaternion 0 0 0 1\<rparr>
   \<and> nodePose (deliver (SceneNode_setup
      \<lparr>opt_tfClient = Some 0, opt_frameID = Some ''laser_frame'',
       opt_object = (None :: unit option), opt_pose = None\<rparr>)
      (replicate 3 \<lparr>translation = Vector3 1 0 0, rotation = Quaternion 0 0 0 1\<rparr>))
     = nodePose (deliver (SceneNode_setup
      \<lparr>opt_tfClient = Some 0, opt_frameID = Some ''laser_frame'',
       opt_object = (None :: unit option), opt_pose = None\<rparr>)
      [\<lparr>translation = Vector3 1 0 0, rotation = Quaternion 0 0 0 1\<rparr>])
   \<and> position (nodePose (deliver (SceneNode_setup
      \<lparr>opt_tfClient = Some 0, opt_frameID = Some ''laser_frame'',
       opt_object = (None :: unit option), opt_pose = None\<rparr>)
      [\<lparr>translation = Vector3 1 0 0, rotation = Quaternion 0 0 0 1\<rparr>,
       \<lparr>translation = Vector3 2 0 0, rotation = Quaternion 0 0 0 1\<rparr>]))
     = Vector3 2 0 0
   \<and> Vector3 2 0 0 \<noteq> Vector3 3 0 0"
proof -
  define opts where "opts = \<lparr>opt_tfClient = Some (0::nat), opt_frameID = Some ''laser_frame'',
       opt_object = (None :: unit option), opt_pose = None\<rparr>"
  define t1 where "t1 = \<lparr>translation = Vector3 1 0 0, rotation = Quaternion 0 0 0 1\<rparr>"
  define t2 where "t2 = \<lparr>translation = Vector3 2 0 0, rotation = Quaternion 0 0 0 1\<rparr>"
  have h1: "opt_tfClient opts \<noteq> None" by (simp add: opts_def)
  have h2: "truthy_string (opt_frameID opts)" by (simp add: opts_def truthy_string_def)
  have h3: "[t1, t2] \<noteq> []" by simp
  have h4: "(1::nat) \<le> 3" by simp
  have h5: "opt_pose opts = None \<or> opt_pose opts = Some identityPose" by (simp add: opts_def)
  note T = SceneNode_pose_from_last_transform[OF h1 h2, of "[t1, t2]" 3 t1, folded t1_def t2_def]
  from T have ip: "initialPose (SceneNode_setup opts) = identityPose"
    by (simp add: opts_def)
  from T h3 have a: "nodePose (deliver (SceneNode_setup opts) [t1, t2])
                      = applyTransform (initialPose (SceneNode_setup opts)) (last [t1, t2])"
    by blast
  from T h4 have b: "nodePose (deliver (SceneNode_setup opts) (replicate 3 t1))
                      = nodePose (deliver (SceneNode_setup opts) [t1])"
    by blast
  from T h5 have c: "position (nodePose (deliver (SceneNode_setup opts) [t1, t2])) = Vector3 2 0 0"
    by blast
  have d: "Vector3 2 0 0 \<noteq> Vector3 3 0 0" by (simp add: Vector3_def)
  from a ip have a': "nodePose (deliver (SceneNode_setup opts) [t1, t2]) = applyTransform identityPose t2"
    by simp
  show ?thesis using a' b c d unfolding opts_def t1_def t2_def by blast
qed

text \<open>
  Claim C8. The claim says a SceneNode constructed with a transform client and a frame id
  stays invisible until its first transform arrives. In the code \<open>setup\<close> sets
  \<open>visible\<close> to false and then calls \<open>updatePose\<close>, whose helper sets \<open>visible\<close> to
  true: the node constructed for frame \<open>laser_frame\<close> with a transform client is
  subscribed and already visible, before any transform is delivered.
\<close>

theorem SceneNode_visible_at_construction:
  "sn_visible (SceneNode_setup
      \<lparr>opt_tfClient = Some 0, opt_frameID = Some ''laser_frame'',
       opt_object = (None :: unit option), opt_pose = None\<rparr>)
   \<and> subscribed (SceneNode_setup
      \<lparr>opt_tfClient = Some 0, opt_frameID = Some ''laser_frame'',
       opt_object = (None :: unit option), opt_pose = None\<rparr>)"
  by (simp add: SceneNode_setup_def Let_def updatePose_def updateObjectPose_def truthy_string_def)


subsection \<open>Interactive marker drag state\<close>

lemma onServerSetPose_dragging:
  "dragging d \<Longrightarrow> onServerSetPose d (Some e) = d\<lparr>bufferedPoseEvent := Some e\<rparr>"
  by (simp add: onServerSetPose_def)

lemma serverPushes_dragging:
  "dragging d \<Longrightarrow>
   serverPushes d es = d\<lparr>bufferedPoseEvent := (if es = [] then bufferedPoseEvent d else Some (last es))\<rparr>"
proof (induction es arbitrary: d)
  case Nil
  then show ?case by simp
next
  case (Cons e es)
  have "dragging (onServerSetPose d (Some e))"
    using Cons.prems by (simp add: onServerSetPose_dragging)
  from Cons.IH[OF this] Cons.prems show ?case
    by (simp add: onServerSetPose_dragging)
qed

lemma startDrag_primary:
  "startDrag im 0 = im\<lparr>dragging := True, dragStart_position := im_position im,
                       dragStart_orientation := im_quaternion im,
                       feedback := feedback im @ [''user-mousedown'']\<rparr>"
  by (simp add: startDrag_def feedbackEvent_def)

text \<open>
  Claim C5. After \<open>startDrag\<close> with the primary button, however many server pose events
  arrive, none is applied: position, orientation and the record of applied server poses
  stay as they were, and the marker stays in the dragging state. The events go to the
  one-slot buffer, which holds the last one. \<open>stopDrag\<close> with the primary button then
  applies exactly one pose, that of the last event, clears the buffer and leaves the
  dragging state; with an empty buffer it applies nothing.
\<close>

theorem drag_buffers_server_poses:
  "(\<forall>n \<le> length es.
       im_position (serverPushes (startDrag im 0) (take n es)) = im_position im
     \<and> im_quaternion (serverPushes (startDrag im 0) (take n es)) = im_quaternion im
     \<and> serverPosesApplied (serverPushes (startDrag im 0) (take n es)) = serverPosesApplied im
     \<and> dragging (serverPushes (startDrag im 0) (take n es)))
   \<and> (es \<noteq> [] \<longrightarrow>
        bufferedPoseEvent (serverPushes (startDrag im 0) es) = Some (last es)
      \<and> serverPosesApplied (stopDrag (serverPushes (startDrag im 0) es) 0)
          = serverPosesApplied im @ [ev_pose (last es)]
      \<and> im_position (stopDrag (serverPushes (startDrag im 0) es) 0) = position (ev_pose (last es))
      \<and> im_quaternion (stopDrag (serverPushes (startDrag im 0) es) 0)
          = orientation (ev_pose (last es))
      \<and> bufferedPoseEvent (stopDrag (serverPushes (startDrag im 0) es) 0) = None
      \<and> \<not> dragging (stopDrag (serverPushes (startDrag im 0) es) 0))
   \<and> (bufferedPoseEvent im = None \<longrightarrow>
        serverPosesApplied (stopDrag (startDrag im 0) 0) = serverPosesApplied im
      \<and> bufferedPoseEvent (stopDrag (startDrag im 0) 0) = None)"
proof -
  have d: "dragging (startDrag im 0)" by (simp add: startDrag_primary)
  note P = serverPushes_dragging[OF d, unfolded startDrag_primary]
  have mid: "\<forall>n \<le> length es.
       im_position (serverPushes (startDrag im 0) (take n es)) = im_position im
     \<and> im_quaternion (serverPushes (startDrag im 0) (take n es)) = im_quaternion im
     \<and> serverPosesApplied (serverPushes (startDrag im 0) (take n es)) = serverPosesApplied im
     \<and> dragging (serverPushes (startDrag im 0) (take n es))"
    by (simp add: P startDrag_primary)
  have fin: "bufferedPoseEvent (serverPushes (startDrag im 0) es) = Some (last es)
      \<and> serverPosesApplied (stopDrag (serverPushes (startDrag im 0) es) 0)
          = serverPosesApplied im @ [ev_pose (last es)]
      \<and> im_position (stopDrag (serverPushes (startDrag im 0) es) 0) = position (ev_pose (last es))
      \<and> im_quaternion (stopDrag (serverPushes (startDrag im 0) es) 0)
          = orientation (ev_pose (last es))
      \<and> bufferedPoseEvent (stopDrag (serverPushes (startDrag im 0) es) 0) = None
      \<and> \<not> dragging (stopDrag (serverPushes (startDrag im 0) es) 0)" if "es \<noteq> []"
    using that
    by (simp add: P startDrag_primary stopDrag_def onServerSetPose_def feedbackEvent_def Let_def)
  have none: "serverPosesApplied (stopDrag (startDrag im 0) 0) = serverPosesApplied im
      \<and> bufferedPoseEvent (stopDrag (startDrag im 0) 0) = None" if "bufferedPoseEvent im = None"
    using that
    by (simp add: startDrag_primary stopDrag_def onServerSetPose_def feedbackEvent_def Let_def)
  show ?thesis using mid fin none by blast
qed

theorem drag_buffers_server_poses_witness:
  "serverPosesApplied (serverPushes (startDrag exampleMarker 0)
      (take 2 [examplePoseEvent 1, examplePoseEvent 2, examplePoseEvent 3])) = []
   \<and> serverPosesApplied (stopDrag (serverPushes (startDrag exampleMarker 0)
        [examplePoseEvent 1, examplePoseEvent 2, examplePoseEvent 3]) 0)
      = [ev_pose (examplePoseEvent 3)]
   \<and> im_position (stopDrag (serverPushes (startDrag exampleMarker 0)
        [examplePoseEvent 1, examplePoseEvent 2, examplePoseEvent 3]) 0) = Vector3 3 0 0
   \<and> serverPosesApplied (stopDrag (startDrag exampleMarker 0) 0) = []"
proof -
  define es where "es = [examplePoseEvent 1, examplePoseEvent 2, examplePoseEvent 3]"
  note T = drag_buffers_server_poses[of es exampleMarker]
  have h1: "2 \<le> length es" by (simp add: es_def)
  have h2: "es \<noteq> []" by (simp add: es_def)
  have h3: "bufferedPoseEvent exampleMarker = None" by (simp add: exampleMarker_def)
  have l: "last es = examplePoseEvent 3" by (simp add: es_def)
  have a0: "serverPosesApplied exampleMarker = []" by (simp add: exampleMarker_def)
  from T h1 have "serverPosesApplied (serverPushes (startDrag exampleMarker 0) (take 2 es))
                  = serverPosesApplied exampleMarker" by blast
  then have a: "serverPosesApplied (serverPushes (startDrag exampleMarker 0) (take 2 es)) = []"
    by (simp only: a0)
  from T h2 have "serverPosesApplied (stopDrag (serverPushes (startDrag exampleMarker 0) es) 0)
          = serverPosesApplied exampleMarker @ [ev_pose (last es)]" by blast
  then have b: "serverPosesApplied (stopDrag (serverPushes (startDrag exampleMarker 0) es) 0)
          = [ev_pose (examplePoseEvent 3)]" by (simp only: a0 l append_Nil)
  from T h2 have "im_position (stopDrag (serverPushes (startDrag exampleMarker 0) es) 0)
          = position (ev_pose (last es))" by blast
  then have c: "im_position (stopDrag (serverPushes (startDrag exampleMarker 0) es) 0) = Vector3 3 0 0"
    by (simp add: l examplePoseEvent_def)
  from T h3 have "serverPosesApplied (stopDrag (startDrag exampleMarker 0) 0)
                  = serverPosesApplied exampleMarker" by blast
  then have d: "serverPosesApplied (stopDrag (startDrag exampleMarker 0) 0) = []"
    by (simp only: a0)
  show ?thesis using a b c d unfolding es_def by blast
qed

subsection \<open>Intersection helpers\<close>

lemma findClosestPoint_None_iff:
  "findClosestPoint targetRay mouseRay = None \<longleftrightarrow>
     \<bar>dot (direction targetRay) (direction targetRay) * dot (direction mouseRay) (direction mouseRay)
       - dot (direction mouseRay) (direction targetRay) * dot (direction mouseRay) (direction targetRay)\<bar>
       \<le> 0.0001"
  by (simp add: findClosestPoint_def Let_def)

lemma intersectPlane_Undefined_iff:
  "intersectPlane mouseRay planeOrigin planeNormal = Undefined \<longleftrightarrow>
     (\<exists>pr. precision mouseRay = Some pr \<and> \<bar>dot (direction mouseRay) planeNormal\<bar> < pr)"
  by (auto simp: intersectPlane_def Let_def js_less_undefined_def split: option.splits)

text \<open>
  Claim C9. \<open>findClosestPoint\<close> returns \<open>undefined\<close> exactly when the absolute value of
  its denominator is at most 0.0001 (lemma \<open>findClosestPoint_None_iff\<close>). The claim
  fails for \<open>intersectPlane\<close>: the threshold it compares with is a property the ray does
  not have, so for a ray along the x axis and the plane \<open>z = 0\<close>, which are parallel (the
  dot product of direction and normal is 0), the helper does not return \<open>undefined\<close>; it
  divides by the zero dot product and returns a vector.
\<close>

theorem intersectPlane_parallel_not_undefined:
  "dot (direction (Ray (Vector3 0 0 1) (Vector3 1 0 0))) (Vector3 0 0 1) = 0
   \<and> intersectPlane (Ray (Vector3 0 0 1) (Vector3 1 0 0)) (Vector3 0 0 0) (Vector3 0 0 1)
       = NonFiniteHit"
  by (simp add: intersectPlane_def Ray_def dot_def Vector3_def subVectors_def Let_def
      js_less_undefined_def)


subsection \<open>LaserScan decoding\<close>

lemma length_ta_store [simp]: "length (ta_store arr k v) = length arr"
  by (simp add: ta_store_def)

lemma nth_ta_store:
  "k < length arr \<Longrightarrow> ta_store arr j v ! k = (if k = j then v else arr ! k)"
  by (simp add: ta_store_def)

lemma length_storeFrom [simp]: "length (storeFrom arr j vs) = length arr"
  by (induction vs arbitrary: arr j) simp_all

lemma nth_storeFrom:
  "k < length arr \<Longrightarrow>
   storeFrom arr j vs ! k = (if j \<le> k \<and> k < j + length vs then vs ! (k - j) else arr ! k)"
proof (induction vs arbitrary: arr j)
  case Nil
  then show ?case by simp
next
  case (Cons v vs)
  have "storeFrom (ta_store arr j v) (Suc j) vs ! k
        = (if Suc j \<le> k \<and> k < Suc j + length vs then vs ! (k - Suc j) else ta_store arr j v ! k)"
    using Cons.IH[of "ta_store arr j v" "Suc j"] Cons.prems by simp
  then show ?case using Cons.prems
    by (auto simp: nth_ta_store nth_Cons' Suc_diff_Suc split: if_splits)
qed

lemma storeFrom_append:
  "storeFrom arr j (us @ vs) = storeFrom (storeFrom arr j us) (j + length us) vs"
  by (induction us arbitrary: arr j) simp_all

lemma scanLoop_eq:
  assumes "0 < ratio"
  shows "scanLoop message ratio i j arr =
           Some (j + 3 * length (filter (inRange message) (idxFrom i ratio (length (ranges message)))),
                 storeFrom arr j (concat (map (samplePoint message)
                    (filter (inRange message) (idxFrom i ratio (length (ranges message)))))))"
proof (induction "length (ranges message) - i" arbitrary: i j arr rule: less_induct)
  case less
  show ?case
  proof (cases "i < length (ranges message)")
    case False
    then show ?thesis
      by (subst scanLoop.simps) (simp add: idxFrom.simps[of i])
  next
    case True
    have dec: "length (ranges message) - (i + ratio) < length (ranges message) - i"
      using True assms by simp
    note IH = less[OF dec]
    have idx: "idxFrom i ratio (length (ranges message))
               = i # idxFrom (i + ratio) ratio (length (ranges message))"
      using True assms by (simp add: idxFrom.simps[of i])
    have cond: "(range_min message \<le> ranges message ! i \<and> ranges message ! i \<le> range_max message)
                = inRange message i"
      by (simp add: inRange_def)
    show ?thesis
    proof (cases "inRange message i")
      case True
      have j3: "j + 3 = Suc (Suc (Suc j))" by simp
      from True show ?thesis using \<open>i < length (ranges message)\<close>
        by (subst scanLoop.simps) (simp add: idx IH cond samplePoint_def j3)
    next
      case False
      then show ?thesis using \<open>i < length (ranges message)\<close>
        by (subst scanLoop.simps) (simp add: idx IH cond)
    qed
  qed
qed

lemma concat_triples_nth:
  assumes "\<And>x. length (f x) = 3" and "m < length xs" and "c < 3"
  shows "concat (map f xs) ! (3 * m + c) = f (xs ! m) ! c"
  using assms(2)
proof (induction xs arbitrary: m)
  case Nil
  then show ?case by simp
next
  case (Cons x xs)
  show ?case
  proof (cases m)
    case 0
    then show ?thesis using assms(1)[of x] assms(3) by (simp add: nth_append)
  next
    case (Suc k)
    then have "k < length xs" using Cons.prems by simp
    from Cons.IH[OF this] Suc show ?thesis
      using assms(1)[of x] by (simp add: nth_append)
  qed
qed

lemma length_concat_triples:
  assumes "\<And>x. length (f x) = 3"
  shows "length (concat (map f xs)) = 3 * length xs"
  by (induction xs) (simp_all add: assms)

lemma idxFrom_set_from:
  "0 < ratio \<Longrightarrow> set (idxFrom i ratio n) = {k. i \<le> k \<and> k < n \<and> ratio dvd (k - i)}"
proof (induction i ratio n rule: idxFrom.induct)
  case (1 i ratio n)
  show ?case
  proof (cases "i < n")
    case False
    then show ?thesis by (auto simp: idxFrom.simps[of i])
  next
    case True
    have unf: "idxFrom i ratio n = i # idxFrom (i + ratio) ratio n"
      using True "1.prems" by (simp add: idxFrom.simps[of i])
    have IH: "set (idxFrom (i + ratio) ratio n)
              = {k. i + ratio \<le> k \<and> k < n \<and> ratio dvd (k - (i + ratio))}"
      using "1.IH" True "1.prems" by simp
    have "{k. i \<le> k \<and> k < n \<and> ratio dvd (k - i)}
          = insert i {k. i + ratio \<le> k \<and> k < n \<and> ratio dvd (k - (i + ratio))}"
    proof (rule set_eqI)
      fix k
      show "k \<in> {k. i \<le> k \<and> k < n \<and> ratio dvd (k - i)}
            \<longleftrightarrow> k \<in> insert i {k. i + ratio \<le> k \<and> k < n \<and> ratio dvd (k - (i + ratio))}"
      proof (cases "k = i")
        case True
        then show ?thesis using \<open>i < n\<close> by simp
      next
        case False
        show ?thesis
        proof
          assume "k \<in> {k. i \<le> k \<and> k < n \<and> ratio dvd (k - i)}"
          then have a: "i \<le> k" "k < n" "ratio dvd (k - i)" by auto
          with False have "0 < k - i" by simp
          with a(3) have "ratio \<le> k - i" by (simp add: dvd_imp_le)
          moreover have "ratio dvd (k - i - ratio)"
            using dvd_diff_nat[OF a(3) dvd_refl[of ratio]] .
          moreover have "k - i - ratio = k - (i + ratio)" by simp
          ultimately show "k \<in> insert i {k. i + ratio \<le> k \<and> k < n \<and> ratio dvd (k - (i + ratio))}"
            using a by auto
        next
          assume "k \<in> insert i {k. i + ratio \<le> k \<and> k < n \<and> ratio dvd (k - (i + ratio))}"
          with False have b: "i + ratio \<le> k" "k < n" "ratio dvd (k - (i + ratio))" by auto
          have "k - i = (k - (i + ratio)) + ratio" using b(1) by simp
          then have "ratio dvd (k - i)" using b(3) by simp
          then show "k \<in> {k. i \<le> k \<and> k < n \<and> ratio dvd (k - i)}" using b by auto
        qed
      qed
    qed
    then show ?thesis by (simp add: unf IH)
  qed
qed

lemma idxFrom_set:
  "0 < ratio \<Longrightarrow> set (idxFrom 0 ratio n) = {i. i < n \<and> ratio dvd i}"
  by (simp add: idxFrom_set_from)


lemma Points_setup_fst:
  "fst (Points_setup pts frame flds) = js_mod_is_zero (messageCount pts) (messageRatio pts)"
  by (simp add: Points_setup_def Let_def split: option.splits)

lemma Points_setup_keeps:
  "max_pts (snd (Points_setup pts frame flds)) = max_pts pts"
  "pointRatio (snd (Points_setup pts frame flds)) = pointRatio pts"
  "messageRatio (snd (Points_setup pts frame flds)) = messageRatio pts"
  by (simp_all add: Points_setup_def Let_def split: option.splits)

lemma Points_setup_positions:
  "positions (snd (Points_setup pts frame flds))
     = (if sn pts = None then Some (replicate (max_pts pts * 3) 0) else positions pts)"
  by (simp add: Points_setup_def Let_def split: option.splits)

lemma LaserScan_processMessage_eq:
  assumes gate: "js_mod_is_zero (Suc (messageCounter this)) (ls_messageRatio this)"
      and pr: "messageRatio (ls_points this) = 1"
      and ratio: "0 < pointRatio (ls_points this)"
      and pos: "positions (snd (Points_setup (ls_points this) (l_frame_id message) [])) = Some arr"
  shows "LaserScan_processMessage this message =
           Some (this\<lparr>messageCounter := Suc (messageCounter this),
                      ls_points := Points_update
                        ((snd (Points_setup (ls_points this) (l_frame_id message) []))
                           \<lparr>positions := Some (storeFrom arr 0
                               (concat (map (samplePoint message)
                                  (acceptedSamples message (pointRatio (ls_points this))))))\<rparr>)
                        (Num (length (acceptedSamples message (pointRatio (ls_points this)))))\<rparr>)"
proof -
  obtain ok pts where su: "Points_setup (ls_points this) (l_frame_id message) [] = (ok, pts)"
    by (cases "Points_setup (ls_points this) (l_frame_id message) []")
  have ok: "ok" using Points_setup_fst[of "ls_points this" "l_frame_id message" "[]"] su pr
    by (simp add: js_mod_is_zero_def)
  have pp: "positions pts = Some arr" using pos su by simp
  have rr: "pointRatio pts = pointRatio (ls_points this)"
    using Points_setup_keeps(2)[of "ls_points this" "l_frame_id message" "[]"] su by simp
  have loop: "scanLoop message (pointRatio pts) 0 0 arr =
      Some (3 * length (acceptedSamples message (pointRatio (ls_points this))),
            storeFrom arr 0 (concat (map (samplePoint message)
               (acceptedSamples message (pointRatio (ls_points this))))))"
    using scanLoop_eq[of "pointRatio pts" message 0 0 arr] ratio rr
    by (simp add: acceptedSamples_def)
  show ?thesis
    using gate ok pp
    by (simp add: LaserScan_processMessage_def Let_def su loop)
qed


lemma idxFrom_increasing: "0 < ratio \<Longrightarrow> sorted_wrt (<) (idxFrom i ratio n)"
proof (induction i ratio n rule: idxFrom.induct)
  case (1 i ratio n)
  show ?case
  proof (cases "i < n")
    case False
    then show ?thesis by (simp add: idxFrom.simps[of i])
  next
    case True
    have unf: "idxFrom i ratio n = i # idxFrom (i + ratio) ratio n"
      using True "1.prems" by (simp add: idxFrom.simps[of i])
    have "\<forall>k \<in> set (idxFrom (i + ratio) ratio n). i < k"
      using "1.prems" by (simp add: idxFrom_set_from)
    moreover have "sorted_wrt (<) (idxFrom (i + ratio) ratio n)"
      using "1.IH" True "1.prems" by simp
    ultimately show ?thesis by (simp add: unf)
  qed
qed

lemma acceptedSamples_increasing:
  "0 < ratio \<Longrightarrow> sorted_wrt (<) (acceptedSamples message ratio)"
  by (simp add: acceptedSamples_def idxFrom_increasing sorted_wrt_filter)


lemma length_samplePoint: "length (samplePoint message i) = 3"
  by (simp add: samplePoint_def)

text \<open>
  Claim C6. For a LaserScan message that passes the message-ratio gate, with a positive
  point ratio: the samples visited are those at the indices below the number of ranges
  that the point ratio divides, and a visited sample is accepted exactly when its range
  lies between \<open>range_min\<close> and \<open>range_max\<close>. The count handed to \<open>update\<close> is the number
  of accepted samples, and the \<open>m\<close>-th accepted sample, in increasing order of the
  index, occupies cells \<open>3m\<close>, \<open>3m+1\<close>,
  \<open>3m+2\<close> of the position array (as far as the array reaches) with
  \<open>range * cos angle\<close>, \<open>range * sin angle\<close> and 0, where
  \<open>angle = angle_min + i * angle_increment\<close>: rejected samples leave no gap. A scan with
  ranges \<open>[range_min - 0.01, 5, range_max + 0.01]\<close>, 5 within the bounds and point
  ratio 1, gives a count of 1.
\<close>

theorem LaserScan_decodes_in_range_samples:
  assumes gate: "js_mod_is_zero (Suc (messageCounter this)) (ls_messageRatio this)"
      and pr: "messageRatio (ls_points this) = 1"
      and ratio: "0 < pointRatio (ls_points this)"
      and ready: "sn (ls_points this) = None
                  \<or> (\<exists>arr. positions (ls_points this) = Some arr
                            \<and> length arr = 3 * max_pts (ls_points this))"
  shows "\<exists>this' arr'.
           LaserScan_processMessage this message = Some this'
         \<and> set (acceptedSamples message (pointRatio (ls_points this)))
             = {i. i < length (ranges message) \<and> pointRatio (ls_points this) dvd i
                   \<and> range_min message \<le> ranges message ! i
                   \<and> ranges message ! i \<le> range_max message}
         \<and> sorted_wrt (<) (acceptedSamples message (pointRatio (ls_points this)))
         \<and> count (ls_points this')
             = Some (Num (length (acceptedSamples message (pointRatio (ls_points this)))))
         \<and> positions (ls_points this') = Some arr'
         \<and> length arr' = 3 * max_pts (ls_points this)
         \<and> (\<forall>m < length (acceptedSamples message (pointRatio (ls_points this))).
               m < max_pts (ls_points this) \<longrightarrow>
                 arr' ! (3 * m)
                   = ranges message ! (acceptedSamples message (pointRatio (ls_points this)) ! m)
                     * cos (angle_min message
                            + real (acceptedSamples message (pointRatio (ls_points this)) ! m)
                              * angle_increment message)
               \<and> arr' ! (3 * m + 1)
                   = ranges message ! (acceptedSamples message (pointRatio (ls_points this)) ! m)
                     * sin (angle_min message
                            + real (acceptedSamples message (pointRatio (ls_points this)) ! m)
                              * angle_increment message)
               \<and> arr' ! (3 * m + 2) = 0)
         \<and> (pointRatio (ls_points this) = 1
              \<and> ranges message = [range_min message - 0.01, 5, range_max message + 0.01]
              \<and> range_min message \<le> 5 \<and> 5 \<le> range_max message
              \<longrightarrow> count (ls_points this') = Some (Num 1))"
proof -
  let ?r = "pointRatio (ls_points this)"
  let ?acc = "acceptedSamples message ?r"
  let ?vals = "concat (map (samplePoint message) ?acc)"
  let ?pts = "snd (Points_setup (ls_points this) (l_frame_id message) [])"
  have "\<exists>arr. positions ?pts = Some arr \<and> length arr = 3 * max_pts (ls_points this)"
  proof (cases "sn (ls_points this) = None")
    case True
    then show ?thesis by (simp add: Points_setup_positions mult.commute)
  next
    case False
    then show ?thesis using ready by (auto simp: Points_setup_positions)
  qed
  then obtain arr where pos: "positions ?pts = Some arr"
    and len: "length arr = 3 * max_pts (ls_points this)" by blast
  let ?arr' = "storeFrom arr 0 ?vals"
  let ?ls' = "this\<lparr>messageCounter := Suc (messageCounter this),
                      ls_points := Points_update (?pts\<lparr>positions := Some ?arr'\<rparr>)
                        (Num (length ?acc))\<rparr>"
  have run: "LaserScan_processMessage this message = Some ?ls'"
    using LaserScan_processMessage_eq[OF gate pr ratio pos] .
  have accset: "set ?acc = {i. i < length (ranges message) \<and> ?r dvd i
                   \<and> range_min message \<le> ranges message ! i
                   \<and> ranges message ! i \<le> range_max message}"
    using ratio by (auto simp: acceptedSamples_def idxFrom_set inRange_def)
  have cnt: "count (ls_points ?ls') = Some (Num (length ?acc))"
    by (simp add: Points_update_def)
  have parr: "positions (ls_points ?ls') = Some ?arr'"
    by (simp add: Points_update_def)
  have larr: "length ?arr' = 3 * max_pts (ls_points this)"
    by (simp add: len)
  have lvals: "length ?vals = 3 * length ?acc"
    by (rule length_concat_triples) (rule length_samplePoint)
  have cell: "?arr' ! (3 * m + c) = samplePoint message (?acc ! m) ! c"
    if m: "m < length ?acc" and cap: "m < max_pts (ls_points this)" and c: "c < 3" for m c
  proof -
    have k: "3 * m + c < length arr" using cap c len by simp
    have inb: "3 * m + c < length ?vals" using m c lvals by simp
    have "?arr' ! (3 * m + c) = ?vals ! (3 * m + c)"
      using nth_storeFrom[OF k, of 0 ?vals] inb by simp
    also have "\<dots> = samplePoint message (?acc ! m) ! c"
      using concat_triples_nth[of "samplePoint message" m ?acc c] m c
      by (simp add: length_samplePoint)
    finally show ?thesis .
  qed
  have cells: "\<forall>m < length ?acc. m < max_pts (ls_points this) \<longrightarrow>
                 ?arr' ! (3 * m)
                   = ranges message ! (?acc ! m)
                     * cos (angle_min message + real (?acc ! m) * angle_increment message)
               \<and> ?arr' ! (3 * m + 1)
                   = ranges message ! (?acc ! m)
                     * sin (angle_min message + real (?acc ! m) * angle_increment message)
               \<and> ?arr' ! (3 * m + 2) = 0"
  proof (intro allI impI)
    fix m assume m: "m < length ?acc" and cap: "m < max_pts (ls_points this)"
    from cell[OF m cap, of 0] cell[OF m cap, of 1] cell[OF m cap, of 2]
    show "?arr' ! (3 * m)
                   = ranges message ! (?acc ! m)
                     * cos (angle_min message + real (?acc ! m) * angle_increment message)
               \<and> ?arr' ! (3 * m + 1)
                   = ranges message ! (?acc ! m)
                     * sin (angle_min message + real (?acc ! m) * angle_increment message)
               \<and> ?arr' ! (3 * m + 2) = 0"
      by (simp add: samplePoint_def)
  qed
  have ex: "count (ls_points ?ls') = Some (Num 1)"
    if "?r = 1 \<and> ranges message = [range_min message - 0.01, 5, range_max message + 0.01]
          \<and> range_min message \<le> 5 \<and> 5 \<le> range_max message"
  proof -
    have i3: "idxFrom 0 (Suc 0) (Suc (Suc (Suc 0))) = [0, Suc 0, Suc (Suc 0)]"
      by (simp add: idxFrom.simps)
    have "?acc = [1]" using that
      by (simp add: acceptedSamples_def i3 inRange_def)
    then show ?thesis by (simp add: Points_update_def)
  qed
  have inc: "sorted_wrt (<) ?acc" using ratio by (rule acceptedSamples_increasing)
  show ?thesis
    using run accset inc cnt parr larr cells ex by blast
qed


lemma LaserScan_new_example:
  "messageCounter (LaserScan_new (exampleOptions cap)) = 0"
  "ls_messageRatio (LaserScan_new (exampleOptions cap)) = 1"
  "messageRatio (ls_points (LaserScan_new (exampleOptions cap))) = 1"
  "pointRatio (ls_points (LaserScan_new (exampleOptions cap))) = 1"
  "max_pts (ls_points (LaserScan_new (exampleOptions cap))) = cap"
  "sn (ls_points (LaserScan_new (exampleOptions cap))) = None"
  by (simp_all add: LaserScan_new_def Points_new_def exampleOptions_def default_to_def)

theorem LaserScan_decodes_in_range_samples_witness:
  "\<exists>this' arr'.
      LaserScan_processMessage (LaserScan_new (exampleOptions 10)) (exampleScan [0.99, 5, 10.01])
        = Some this'
    \<and> count (ls_points this') = Some (Num 1)
    \<and> positions (ls_points this') = Some arr'
    \<and> arr' ! (3 * 0 + 2) = 0"
proof -
  let ?ls = "LaserScan_new (exampleOptions 10)"
  let ?msg = "exampleScan [0.99, 5, 10.01]"
  have gate: "js_mod_is_zero (Suc (messageCounter ?ls)) (ls_messageRatio ?ls)"
    by (simp add: LaserScan_new_example js_mod_is_zero_def)
  have pr: "messageRatio (ls_points ?ls) = 1" by (simp add: LaserScan_new_example)
  have ratio: "0 < pointRatio (ls_points ?ls)" by (simp add: LaserScan_new_example)
  have ready: "sn (ls_points ?ls) = None
                  \<or> (\<exists>arr. positions (ls_points ?ls) = Some arr
                            \<and> length arr = 3 * max_pts (ls_points ?ls))"
    by (simp add: LaserScan_new_example)
  have ex: "pointRatio (ls_points ?ls) = 1
              \<and> ranges ?msg = [range_min ?msg - 0.01, 5, range_max ?msg + 0.01]
              \<and> range_min ?msg \<le> 5 \<and> 5 \<le> range_max ?msg"
    by (simp add: LaserScan_new_example exampleScan_def)
  from LaserScan_decodes_in_range_samples[OF gate pr ratio ready, of ?msg]
  obtain this' arr' where
        run: "LaserScan_processMessage ?ls ?msg = Some this'"
    and cnt: "count (ls_points this')
             = Some (Num (length (acceptedSamples ?msg (pointRatio (ls_points ?ls)))))"
    and parr: "positions (ls_points this') = Some arr'"
    and cells: "\<forall>m < length (acceptedSamples ?msg (pointRatio (ls_points ?ls))).
               m < max_pts (ls_points ?ls) \<longrightarrow>
                 arr' ! (3 * m)
                   = ranges ?msg ! (acceptedSamples ?msg (pointRatio (ls_points ?ls)) ! m)
                     * cos (angle_min ?msg
                            + real (acceptedSamples ?msg (pointRatio (ls_points ?ls)) ! m)
                              * angle_increment ?msg)
               \<and> arr' ! (3 * m + 1)
                   = ranges ?msg ! (acceptedSamples ?msg (pointRatio (ls_points ?ls)) ! m)
                     * sin (angle_min ?msg
                            + real (acceptedSamples ?msg (pointRatio (ls_points ?ls)) ! m)
                              * angle_increment ?msg)
               \<and> arr' ! (3 * m + 2) = 0"
    and one: "pointRatio (ls_points ?ls) = 1
              \<and> ranges ?msg = [range_min ?msg - 0.01, 5, range_max ?msg + 0.01]
              \<and> range_min ?msg \<le> 5 \<and> 5 \<le> range_max ?msg
              \<longrightarrow> count (ls_points this') = Some (Num 1)"
    by blast
  from one ex have c1: "count (ls_points this') = Some (Num 1)" by blast
  with cnt have "length (acceptedSamples ?msg (pointRatio (ls_points ?ls))) = 1" by simp
  then have m0: "0 < length (acceptedSamples ?msg (pointRatio (ls_points ?ls)))" by simp
  have cap: "0 < max_pts (ls_points ?ls)" by (simp add: LaserScan_new_example)
  from cells m0 cap have "arr' ! (3 * 0 + 2) = 0" by blast
  with run c1 parr show ?thesis by blast
qed

text \<open>
  Claim C3. The claim bounds the count handed to \<open>update\<close> by \<open>max_pts\<close> for both
  decoders. The LaserScan handler passes the number of accepted samples without a bound:
  with \<open>max_pts = 1\<close> and a scan of two in-range samples the count is 2. The position
  array itself keeps its length, since a store outside a typed array is ignored.
\<close>

theorem LaserScan_draw_count_exceeds_capacity:
  "\<exists>this' arr'.
      LaserScan_processMessage (LaserScan_new (exampleOptions 1)) (exampleScan [5, 5]) = Some this'
    \<and> max_pts (ls_points this') = 1
    \<and> count (ls_points this') = Some (Num 2)
    \<and> positions (ls_points this') = Some arr'
    \<and> length arr' = 3"
proof -
  let ?ls = "LaserScan_new (exampleOptions 1)"
  let ?msg = "exampleScan [5, 5]"
  have gate: "js_mod_is_zero (Suc (messageCounter ?ls)) (ls_messageRatio ?ls)"
    by (simp add: LaserScan_new_example js_mod_is_zero_def)
  have pr: "messageRatio (ls_points ?ls) = 1" by (simp add: LaserScan_new_example)
  have ratio: "0 < pointRatio (ls_points ?ls)" by (simp add: LaserScan_new_example)
  have pos: "positions (snd (Points_setup (ls_points ?ls) (l_frame_id ?msg) []))
             = Some (replicate 3 0)"
    by (simp add: Points_setup_positions LaserScan_new_example)
  have i2: "idxFrom 0 (Suc 0) (Suc (Suc 0)) = [0, Suc 0]"
    by (simp add: idxFrom.simps)
  have acc: "acceptedSamples ?msg (pointRatio (ls_points ?ls)) = [0, 1]"
    by (simp add: acceptedSamples_def LaserScan_new_example exampleScan_def i2 inRange_def)
  have cap: "max_pts (snd (Points_setup (ls_points ?ls) (l_frame_id ?msg) [])) = 1"
    by (simp add: Points_setup_keeps LaserScan_new_example)
  show ?thesis
    using LaserScan_processMessage_eq[OF gate pr ratio pos] cap acc
    by (simp add: Points_update_def)
qed


subsection \<open>PointCloud2 decoding\<close>











subsection \<open>Marker lifecycle\<close>

lemmas marker_type_defs =
  MARKER_ARROW_def MARKER_CUBE_def MARKER_SPHERE_def MARKER_CYLINDER_def MARKER_LINE_STRIP_def
  MARKER_LINE_LIST_def MARKER_CUBE_LIST_def MARKER_SPHERE_LIST_def MARKER_POINTS_def
  MARKER_TEXT_VIEW_FACING_def MARKER_MESH_RESOURCE_def MARKER_TRIANGLE_LIST_def

lemma Marker_update_fst:
  assumes "markerConsistent marker"
  shows "fst (Marker_update marker message) = updateCompatible marker message"
proof (cases "mtype message = mtype (m_message marker)")
  case False
  then show ?thesis by (simp add: Marker_update_def updateCompatible_def)
next
  case True
  have ch: "m_children marker = [createMarkerObject (m_message marker)]"
    using assms by (simp add: markerConsistent_def)
  have sc: "scaleChanged (m\<lparr>m_message := a, m_position := b, m_quaternion := c\<rparr>) message
            = scaleChanged m message" for m a b c
    by (simp add: scaleChanged_def)
  have sc2: "scaleChanged (m\<lparr>msgColor := a\<rparr>) message = scaleChanged m message" for m a
    by (simp add: scaleChanged_def)
  show ?thesis
    using True
    by (auto simp: Marker_update_def updateCompatible_def setPose_def Let_def ch
        createMarkerObject_def pointCountSensitive_def rebuildOnScale_def marker_type_defs
        scaleChanged_def)
qed


lemma createMarkerObject_compatible:
  "updateCompatible marker message \<Longrightarrow>
   createMarkerObject message = createMarkerObject (m_message marker)"
  by (auto simp: updateCompatible_def createMarkerObject_def pointCountSensitive_def)

lemma Marker_update_compatible:
  assumes c: "markerConsistent marker" and u: "updateCompatible marker message"
  shows "Marker_update marker message =
     (True, marker\<lparr>m_message := message,
                   m_position := position (mpose message),
                   m_quaternion := normalize_quat (orientation (mpose message)),
                   msgColor := (if colorDiffers (color message) (msgColor marker)
                                then color message else msgColor marker),
                   msgScale := (if scaleChanged marker message then scale message
                                else msgScale marker)\<rparr>)"
proof -
  have ch: "m_children marker = [createMarkerObject (m_message marker)]"
    using c by (simp add: markerConsistent_def)
  have ty: "mtype message = mtype (m_message marker)" using u by (simp add: updateCompatible_def)
  show ?thesis
    using u ty
    by (auto simp: Marker_update_def updateCompatible_def setPose_def Let_def ch
        createMarkerObject_def pointCountSensitive_def rebuildOnScale_def marker_type_defs
        scaleChanged_def Vector3_eta Quaternion_eta)
qed


lemma Marker_update_result:
  assumes c: "markerConsistent marker" and u: "updateCompatible marker message"
  shows "m_message (snd (Marker_update marker message)) = message"
    and "markerPose (snd (Marker_update marker message)) = normalizedPose (mpose message)"
    and "markerConsistent (snd (Marker_update marker message))"
  using c createMarkerObject_compatible[OF u]
  by (simp_all add: Marker_update_compatible[OF c u] markerPose_def normalizedPose_def
      markerConsistent_def)

lemma map_of_map_key:
  "map_of (map (\<lambda>kv. if fst kv = k then (k, v) else kv) tbl) k'
     = (if k' = k then (if k \<in> fst ` set tbl then Some v else None) else map_of tbl k')"
  by (induction tbl) (auto simp: rev_image_eqI)

lemma map_of_snoc_fresh:
  "k \<notin> fst ` set tbl \<Longrightarrow>
   map_of (tbl @ [(k, v)]) k' = (if k' = k then Some v else map_of tbl k')"
  by (induction tbl) auto

lemma map_of_setMarker:
  "map_of (setMarker k v tbl) k' = (if k' = k then Some v else map_of tbl k')"
proof (cases "k \<in> fst ` set tbl")
  case True
  then show ?thesis by (simp add: setMarker_def map_of_map_key)
next
  case False
  then show ?thesis by (simp add: setMarker_def map_of_snoc_fresh del: map_of_append)
qed

lemma map_of_filter_key:
  "map_of (filter (\<lambda>kv. fst kv \<noteq> k) tbl) k' = (if k' = k then None else map_of tbl k')"
  by (induction tbl) auto

lemma removeMarker_absent:
  "map_of (markers mc) k = None \<Longrightarrow> removeMarker mc k = mc"
  by (simp add: removeMarker_def)

lemma Marker_new_props:
  "markerPose (Marker_new message) = normalizedPose (mpose message)"
  "markerConsistent (Marker_new message)"
  "m_message (Marker_new message) = message"
  by (simp_all add: Marker_new_def setPose_def Let_def markerPose_def normalizedPose_def
      Vector3_eta Quaternion_eta markerConsistent_def)

lemma SceneNode_setup_props:
  "nodePose (SceneNode_setup options)
     = normalizedPose (case opt_pose options of None \<Rightarrow> identityPose | Some q \<Rightarrow> q)"
  "sn_children (SceneNode_setup options) = (case opt_object options of None \<Rightarrow> [] | Some ob \<Rightarrow> [ob])"
  by (simp_all add: SceneNode_setup_def Let_def updatePose_def updateObjectPose_def nodePose_def
      normalizedPose_def Vector3_eta Quaternion_eta)

lemma process_absent:
  assumes "map_of (markers mc) (marker_key_of message) = None" and "action message = 0"
  shows "MarkerClient_processMessage mc message now =
           mc\<lparr>markers := setMarker (marker_key_of message) (newMarkerNode mc message now)
                          (setMarker (marker_key_of message) (newMarkerNode mc message now) (markers mc)),
              rootChildren := rootChildren mc @ [nextUid mc],
              nextUid := Suc (nextUid mc)\<rparr>"
  using assms
  by (simp add: MarkerClient_processMessage_def Let_def map_of_setMarker newMarkerNode_def)


lemma process_live_compatible:
  assumes live: "map_of (markers mc) (marker_key_of message) = Some mn"
      and ch: "sn_children (sceneNode mn) = [marker]"
      and c: "markerConsistent marker"
      and u: "updateCompatible marker message"
      and a: "action message = 0"
  shows "MarkerClient_processMessage mc message now =
           mc\<lparr>markers :=
                setMarker (marker_key_of message)
                  (mn\<lparr>sceneNode := (sceneNode mn)\<lparr>sn_children := [snd (Marker_update marker message)]\<rparr>,
                      updatedTime := now\<rparr>)
                  (setMarker (marker_key_of message)
                     (mn\<lparr>sceneNode := (sceneNode mn)\<lparr>sn_children := [snd (Marker_update marker message)]\<rparr>,
                         updatedTime := now\<rparr>)
                     (markers mc))\<rparr>"
proof -
  have f: "Marker_update marker message = (True, snd (Marker_update marker message))"
    using Marker_update_fst[OF c, of message] u by (simp add: prod_eq_iff)
  show ?thesis
    using a live ch
    apply (simp add: MarkerClient_processMessage_def Let_def)
    apply (subst f)
    apply (simp add: map_of_setMarker)
    done
qed

lemma removeMarker_live:
  "map_of (markers mc) k = Some mn \<Longrightarrow>
   removeMarker mc k = mc\<lparr>disposedNodes := disposedNodes mc @ [uid mn],
                          rootChildren := removeAll (uid mn) (rootChildren mc),
                          markers := filter (\<lambda>kv. fst kv \<noteq> k) (markers mc)\<rparr>"
  by (simp add: removeMarker_def)

lemma process_live_incompatible:
  assumes live: "map_of (markers mc) (marker_key_of message) = Some mn"
      and ch: "sn_children (sceneNode mn) = [marker]"
      and c: "markerConsistent marker"
      and u: "\<not> updateCompatible marker message"
      and a: "action message = 0"
  shows "MarkerClient_processMessage mc message now =
           mc\<lparr>disposedNodes := disposedNodes mc @ [uid mn],
              rootChildren := removeAll (uid mn) (rootChildren mc) @ [nextUid mc],
              markers :=
                setMarker (marker_key_of message) (newMarkerNode mc message now)
                  (setMarker (marker_key_of message) (newMarkerNode mc message now)
                     (filter (\<lambda>kv. fst kv \<noteq> marker_key_of message) (markers mc))),
              nextUid := Suc (nextUid mc)\<rparr>"
proof -
  have f: "Marker_update marker message = (False, snd (Marker_update marker message))"
    using Marker_update_fst[OF c, of message] u by (simp add: prod_eq_iff)
  show ?thesis
    using a live ch
    apply (simp add: MarkerClient_processMessage_def Let_def)
    apply (subst f)
    apply (simp add: map_of_setMarker removeMarker_live newMarkerNode_def)
    done
qed


lemma applyQuaternion_norm:
  "dot (applyQuaternion v q) (applyQuaternion v q)
     = (qx q * qx q + qy q * qy q + qz q * qz q + qw q * qw q)
       * (qx q * qx q + qy q * qy q + qz q * qz q + qw q * qw q) * dot v v"
  by (simp add: applyQuaternion_def dot_def Vector3_def Let_def algebra_simps)


lemma dot_self_zero: "dot v v = 0 \<Longrightarrow> v = Vector3 0 0 0"
proof -
  assume "dot v v = 0"
  then have "vx v * vx v + (vy v * vy v + vz v * vz v) = 0" by (simp add: dot_def)
  moreover have "0 \<le> vx v * vx v" "0 \<le> vy v * vy v" "0 \<le> vz v * vz v" by simp_all
  ultimately have "vx v * vx v = 0" "vy v * vy v = 0" "vz v * vz v = 0"
    by (simp_all add: add_nonneg_eq_0_iff)
  then have "vx v = 0" "vy v = 0" "vz v = 0" by simp_all
  then show ?thesis by (simp add: Vector3_def)
qed

lemma applyQuaternion_unit_zero:
  assumes "qlength q = 1" and "applyQuaternion v q = Vector3 0 0 0"
  shows "v = Vector3 0 0 0"
proof -
  have "qx q * qx q + qy q * qy q + qz q * qz q + qw q * qw q = 1"
    using assms(1) by (simp add: qlength_def)
  then have "dot (applyQuaternion v q) (applyQuaternion v q) = dot v v"
    by (simp add: applyQuaternion_norm)
  moreover have "dot (applyQuaternion v q) (applyQuaternion v q) = 0"
    by (simp add: assms(2) dot_def Vector3_def)
  ultimately show ?thesis by (simp add: dot_self_zero)
qed

lemma composePose_self_differs:
  assumes "position p \<noteq> Vector3 0 0 0"
  shows "composePose (normalizedPose p) (normalizedPose p) \<noteq> normalizedPose p"
proof
  assume e: "composePose (normalizedPose p) (normalizedPose p) = normalizedPose p"
  let ?r = "applyQuaternion (position p) (normalize_quat (orientation p))"
  from e have "addv ?r (position p) = position p"
    by (simp add: composePose_def normalizedPose_def)
  then have "vx (addv ?r (position p)) = vx (position p)"
    "vy (addv ?r (position p)) = vy (position p)"
    "vz (addv ?r (position p)) = vz (position p)"
    by simp_all
  then have "vx ?r = 0" "vy ?r = 0" "vz ?r = 0"
    by (simp_all add: addv_def Vector3_def)
  then have "?r = Vector3 0 0 0" by (simp add: Vector3_def)
  from applyQuaternion_unit_zero[OF qlength_normalize this] assms show False by simp
qed

lemma tfUpdateBound_identity:
  "nodePose (tfUpdateBound nd identityTransform) = normalizedPose (initialPose nd)"
  "sn_children (tfUpdateBound nd identityTransform) = sn_children nd"
proof -
  have "multiplyQuaternions (Quaternion 0 0 0 1) q = q" for q
    by (simp add: multiplyQuaternions_def Quaternion_def)
  moreover have "addv v (Vector3 0 0 0) = v" for v
    by (simp add: addv_def Vector3_def)
  ultimately show "nodePose (tfUpdateBound nd identityTransform) = normalizedPose (initialPose nd)"
    by (simp add: nodePose_tfUpdateBound applyTransform_eq identityTransform_def
        applyQuaternion_identity normalizedPose_def)
  show "sn_children (tfUpdateBound nd identityTransform) = sn_children nd"
    by (simp add: tfUpdateBound_def updatePose_def updateObjectPose_def Let_def)
qed

text \<open>
  Claim C10. When an ADD/MODIFY message arrives for an absent key, the node stored for the
  key has the message pose as its initial pose and as its own pose (orientation
  normalised), and its child, the new Marker, has the same pose again. After the handler
  has run with the identity transform the node's pose is still the message pose, so the
  world pose of the marker is the message pose composed with itself. For a unit
  orientation the normalised pose is the message pose itself, and whenever the message
  position is not the origin the composed pose differs from the message pose applied once.
\<close>

theorem new_marker_pose_applied_twice:
  assumes absent: "map_of (markers mc) (marker_key_of message) = None"
      and a: "action message = 0"
  shows "\<exists>mn marker.
           map_of (markers (MarkerClient_processMessage mc message now)) (marker_key_of message)
             = Some mn
         \<and> initialPose (sceneNode mn) = mpose message
         \<and> nodePose (sceneNode mn) = normalizedPose (mpose message)
         \<and> sn_children (sceneNode mn) = [marker]
         \<and> markerPose marker = normalizedPose (mpose message)
         \<and> nodePose (tfUpdateBound (sceneNode mn) identityTransform)
             = normalizedPose (mpose message)
         \<and> markerWorldPose (mn\<lparr>sceneNode := tfUpdateBound (sceneNode mn) identityTransform\<rparr>)
             = Some (composePose (normalizedPose (mpose message)) (normalizedPose (mpose message)))
         \<and> (qlength (orientation (mpose message)) = 1
              \<longrightarrow> normalizedPose (mpose message) = mpose message)
         \<and> (position (mpose message) \<noteq> Vector3 0 0 0
              \<longrightarrow> composePose (normalizedPose (mpose message)) (normalizedPose (mpose message))
                    \<noteq> normalizedPose (mpose message))"
proof -
  let ?mn = "newMarkerNode mc message now"
  have m: "map_of (markers (MarkerClient_processMessage mc message now)) (marker_key_of message)
             = Some ?mn"
    by (simp add: process_absent[OF absent a] map_of_setMarker)
  have ip: "initialPose (sceneNode ?mn) = mpose message"
    by (simp add: newMarkerNode_def setup_initialPose)
  have np: "nodePose (sceneNode ?mn) = normalizedPose (mpose message)"
    by (simp add: newMarkerNode_def SceneNode_setup_props)
  have ch: "sn_children (sceneNode ?mn) = [Marker_new message]"
    by (simp add: newMarkerNode_def SceneNode_setup_props)
  have mp: "markerPose (Marker_new message) = normalizedPose (mpose message)"
    by (rule Marker_new_props)
  have tp: "nodePose (tfUpdateBound (sceneNode ?mn) identityTransform)
             = normalizedPose (mpose message)"
    by (simp add: tfUpdateBound_identity ip)
  have wp: "markerWorldPose (?mn\<lparr>sceneNode := tfUpdateBound (sceneNode ?mn) identityTransform\<rparr>)
             = Some (composePose (normalizedPose (mpose message)) (normalizedPose (mpose message)))"
    by (simp add: markerWorldPose_def tfUpdateBound_identity ch ip mp)
  have un: "qlength (orientation (mpose message)) = 1
              \<longrightarrow> normalizedPose (mpose message) = mpose message"
    by (simp add: normalizedPose_def normalize_unit)
  have df: "position (mpose message) \<noteq> Vector3 0 0 0
              \<longrightarrow> composePose (normalizedPose (mpose message)) (normalizedPose (mpose message))
                    \<noteq> normalizedPose (mpose message)"
    using composePose_self_differs[of "mpose message"] by blast
  show ?thesis
    apply (rule exI[where x = ?mn])
    apply (rule exI[where x = "Marker_new message"])
    apply (intro conjI)
            apply (rule m)
           apply (rule ip)
          apply (rule np)
         apply (rule ch)
        apply (rule mp)
       apply (rule tp)
      apply (rule wp)
     apply (rule un)
    apply (rule df)
    done
qed


lemma normalizedPose_example:
  "normalizedPose \<lparr>position = Vector3 1 0 0, orientation = Quaternion 0 0 0 1\<rparr>
     = \<lparr>position = Vector3 1 0 0, orientation = Quaternion 0 0 0 1\<rparr>"
  by (simp add: normalizedPose_def normalize_quat_def qlength_def Quaternion_def Let_def)

lemma composePose_example:
  "composePose \<lparr>position = Vector3 1 0 0, orientation = Quaternion 0 0 0 1\<rparr>
               \<lparr>position = Vector3 1 0 0, orientation = Quaternion 0 0 0 1\<rparr>
     = \<lparr>position = Vector3 2 0 0, orientation = Quaternion 0 0 0 1\<rparr>"
  by (simp add: composePose_def applyQuaternion_def Let_def addv_def multiplyQuaternions_def
      Vector3_def Quaternion_def)

theorem new_marker_pose_applied_twice_witness:
  "\<exists>mn.
      map_of (markers (MarkerClient_processMessage emptyClient (exampleArrow 1) 0))
        (marker_key_of (exampleArrow 1)) = Some mn
    \<and> mpose (exampleArrow 1) = \<lparr>position = Vector3 1 0 0, orientation = Quaternion 0 0 0 1\<rparr>
    \<and> markerWorldPose (mn\<lparr>sceneNode := tfUpdateBound (sceneNode mn) identityTransform\<rparr>)
        = Some \<lparr>position = Vector3 2 0 0, orientation = Quaternion 0 0 0 1\<rparr>"
proof -
  have absent: "map_of (markers emptyClient) (marker_key_of (exampleArrow 1)) = None"
    by (simp add: emptyClient_def)
  have a: "action (exampleArrow 1) = 0" by (simp add: exampleArrow_def)
  have p: "mpose (exampleArrow 1) = \<lparr>position = Vector3 1 0 0, orientation = Quaternion 0 0 0 1\<rparr>"
    by (simp add: exampleArrow_def)
  from new_marker_pose_applied_twice[OF absent a, of 0]
  obtain mn where
        m: "map_of (markers (MarkerClient_processMessage emptyClient (exampleArrow 1) 0))
              (marker_key_of (exampleArrow 1)) = Some mn"
    and w: "markerWorldPose (mn\<lparr>sceneNode := tfUpdateBound (sceneNode mn) identityTransform\<rparr>)
             = Some (composePose (normalizedPose (mpose (exampleArrow 1)))
                                 (normalizedPose (mpose (exampleArrow 1))))"
    by (elim exE conjE)
  from w have "markerWorldPose (mn\<lparr>sceneNode := tfUpdateBound (sceneNode mn) identityTransform\<rparr>)
        = Some \<lparr>position = Vector3 2 0 0, orientation = Quaternion 0 0 0 1\<rparr>"
    by (simp only: p normalizedPose_example composePose_example)
  with m p show ?thesis by blast
qed

text \<open>
  Claim C4, amended. For a live key whose node holds a consistent marker, an ADD/MODIFY
  message updates the marker in place, keeping the identity of the SceneNode and disposing
  nothing, if and only if the type of the message equals that of the marker, a
  point-count-sensitive type (line strip, line list, points, cube list, sphere list) comes
  with as many points as before, and, for a type that needs a rebuild on a scale change
  (arrow, text, mesh resource, triangle list), no component of the new scale differs by
  more than \<open>10\<^sup>-\<^sup>6\<close> from the scale the marker has recorded. Then the marker carries the
  new message and pose. Otherwise the old node is disposed and removed from the root, and
  the key holds a fresh node, of a new identity, with a new Marker made from the message.
  The hypotheses on the node hold in every state the client reaches
  (\<open>clientInv_process\<close>, \<open>clientInv_live\<close>).
\<close>

theorem marker_update_in_place_iff:
  assumes live: "map_of (markers mc) (marker_key_of message) = Some mn"
      and ch: "sn_children (sceneNode mn) = [marker]"
      and c: "markerConsistent marker"
      and fresh: "uid mn < nextUid mc"
      and a: "action message = 0"
  shows "(updatedInPlace mc message now \<longleftrightarrow> updateCompatible marker message)
       \<and> (updateCompatible marker message \<longrightarrow>
            (\<exists>mn' marker'.
                map_of (markers (MarkerClient_processMessage mc message now)) (marker_key_of message)
                  = Some mn'
              \<and> uid mn' = uid mn
              \<and> sn_children (sceneNode mn') = [marker']
              \<and> m_message marker' = message
              \<and> markerPose marker' = normalizedPose (mpose message)
              \<and> markerConsistent marker')
          \<and> disposedNodes (MarkerClient_processMessage mc message now) = disposedNodes mc
          \<and> rootChildren (MarkerClient_processMessage mc message now) = rootChildren mc
          \<and> nextUid (MarkerClient_processMessage mc message now) = nextUid mc)
       \<and> (\<not> updateCompatible marker message \<longrightarrow>
            map_of (markers (MarkerClient_processMessage mc message now)) (marker_key_of message)
              = Some (newMarkerNode mc message now)
          \<and> uid (newMarkerNode mc message now) \<noteq> uid mn
          \<and> sn_children (sceneNode (newMarkerNode mc message now)) = [Marker_new message]
          \<and> disposedNodes (MarkerClient_processMessage mc message now)
              = disposedNodes mc @ [uid mn]
          \<and> rootChildren (MarkerClient_processMessage mc message now)
              = removeAll (uid mn) (rootChildren mc) @ [nextUid mc])"
proof (cases "updateCompatible marker message")
  case True
  note E = process_live_compatible[OF live ch c True a, of now]
  let ?mn' = "mn\<lparr>sceneNode := (sceneNode mn)\<lparr>sn_children := [snd (Marker_update marker message)]\<rparr>,
                   updatedTime := now\<rparr>"
  have m: "map_of (markers (MarkerClient_processMessage mc message now)) (marker_key_of message)
             = Some ?mn'"
    by (simp add: E map_of_setMarker)
  have d: "disposedNodes (MarkerClient_processMessage mc message now) = disposedNodes mc"
    and r: "rootChildren (MarkerClient_processMessage mc message now) = rootChildren mc"
    and n: "nextUid (MarkerClient_processMessage mc message now) = nextUid mc"
    by (simp_all add: E)
  have inpl: "updatedInPlace mc message now"
    by (simp add: updatedInPlace_def live m d)
  have ex: "\<exists>mn' marker'.
                map_of (markers (MarkerClient_processMessage mc message now)) (marker_key_of message)
                  = Some mn'
              \<and> uid mn' = uid mn
              \<and> sn_children (sceneNode mn') = [marker']
              \<and> m_message marker' = message
              \<and> markerPose marker' = normalizedPose (mpose message)
              \<and> markerConsistent marker'"
    apply (rule exI[where x = ?mn'])
    apply (rule exI[where x = "snd (Marker_update marker message)"])
    apply (simp add: m Marker_update_result[OF c True])
    done
  show ?thesis using True inpl ex d r n by simp
next
  case False
  note E = process_live_incompatible[OF live ch c False a, of now]
  have m: "map_of (markers (MarkerClient_processMessage mc message now)) (marker_key_of message)
             = Some (newMarkerNode mc message now)"
    by (simp add: E map_of_setMarker)
  have d: "disposedNodes (MarkerClient_processMessage mc message now) = disposedNodes mc @ [uid mn]"
    and r: "rootChildren (MarkerClient_processMessage mc message now)
              = removeAll (uid mn) (rootChildren mc) @ [nextUid mc]"
    by (simp_all add: E)
  have u: "uid (newMarkerNode mc message now) \<noteq> uid mn"
    using fresh by (simp add: newMarkerNode_def)
  have k: "sn_children (sceneNode (newMarkerNode mc message now)) = [Marker_new message]"
    by (simp add: newMarkerNode_def SceneNode_setup_props)
  have ninpl: "\<not> updatedInPlace mc message now"
    using u by (simp add: updatedInPlace_def live m)
  show ?thesis using False ninpl m d r u k by simp
qed


lemma process_first:
  assumes "action message = 0"
  shows "map_of (markers (MarkerClient_processMessage emptyClient message now)) (marker_key_of message)
           = Some (newMarkerNode emptyClient message now)"
    and "nextUid (MarkerClient_processMessage emptyClient message now) = 1"
proof -
  have absent: "map_of (markers emptyClient) (marker_key_of message) = None"
    by (simp add: emptyClient_def)
  show "map_of (markers (MarkerClient_processMessage emptyClient message now)) (marker_key_of message)
           = Some (newMarkerNode emptyClient message now)"
    by (simp add: process_absent[OF absent assms] map_of_setMarker)
  show "nextUid (MarkerClient_processMessage emptyClient message now) = 1"
    unfolding process_absent[OF absent assms] by (simp add: emptyClient_def)
qed

lemma newMarkerNode_props:
  "sn_children (sceneNode (newMarkerNode mc message now)) = [Marker_new message]"
  "uid (newMarkerNode mc message now) = nextUid mc"
  by (simp_all add: newMarkerNode_def SceneNode_setup_props)

theorem marker_update_in_place_iff_witness:
  "updatedInPlace (MarkerClient_processMessage emptyClient (exampleLineStrip 3) 0)
      (exampleLineStrip 3) 1
   \<and> \<not> updatedInPlace (MarkerClient_processMessage emptyClient (exampleLineStrip 3) 0)
      (exampleLineStrip 4) 1"
proof -
  let ?mc = "MarkerClient_processMessage emptyClient (exampleLineStrip 3) 0"
  let ?mn = "newMarkerNode emptyClient (exampleLineStrip 3) 0"
  have a3: "action (exampleLineStrip 3) = 0" and a4: "action (exampleLineStrip 4) = 0"
    by (simp_all add: exampleLineStrip_def)
  have k: "marker_key_of (exampleLineStrip 4) = marker_key_of (exampleLineStrip 3)"
    by (simp add: marker_key_of_def exampleLineStrip_def)
  have live3: "map_of (markers ?mc) (marker_key_of (exampleLineStrip 3)) = Some ?mn"
    by (rule process_first[OF a3])
  have live4: "map_of (markers ?mc) (marker_key_of (exampleLineStrip 4)) = Some ?mn"
    unfolding k by (rule live3)
  have ch: "sn_children (sceneNode ?mn) = [Marker_new (exampleLineStrip 3)]"
    by (rule newMarkerNode_props)
  have c: "markerConsistent (Marker_new (exampleLineStrip 3))" by (rule Marker_new_props)
  have fresh: "uid ?mn < nextUid ?mc"
    unfolding newMarkerNode_props process_first(2)[OF a3] by (simp add: emptyClient_def)
  have u3: "updateCompatible (Marker_new (exampleLineStrip 3)) (exampleLineStrip 3)"
    by (simp add: updateCompatible_def Marker_new_props exampleLineStrip_def rebuildOnScale_def
        marker_type_defs)
  have u4: "\<not> updateCompatible (Marker_new (exampleLineStrip 3)) (exampleLineStrip 4)"
    by (simp add: updateCompatible_def Marker_new_props exampleLineStrip_def
        pointCountSensitive_def)
  from marker_update_in_place_iff[OF live3 ch c fresh a3, of 1] u3
  have i3: "updatedInPlace ?mc (exampleLineStrip 3) 1" by blast
  from marker_update_in_place_iff[OF live4 ch c fresh a4, of 1] u4
  have i4: "\<not> updatedInPlace ?mc (exampleLineStrip 4) 1" by blast
  from i3 i4 show ?thesis by blast
qed

text \<open>
  Claim C4 as stated fails: an arrow marker made with scale \<open>(1, 1, 1)\<close> that receives a
  message of the same type with scale \<open>(1.0000005, 1, 1)\<close> has a scale change on a type
  that needs a rebuild, yet it is updated in place.
\<close>

theorem marker_scale_change_is_thresholded:
  "\<not> (updatedInPlace (MarkerClient_processMessage emptyClient (exampleArrow 1) 0)
          (exampleArrow 1.0000005) 1
        \<longleftrightarrow> updateCompatible_claim (exampleArrow 1) (exampleArrow 1.0000005))"
proof -
  let ?mc = "MarkerClient_processMessage emptyClient (exampleArrow 1) 0"
  let ?mn = "newMarkerNode emptyClient (exampleArrow 1) 0"
  have a: "action (exampleArrow 1) = 0" and a': "action (exampleArrow 1.0000005) = 0"
    by (simp_all add: exampleArrow_def)
  have k: "marker_key_of (exampleArrow 1.0000005) = marker_key_of (exampleArrow 1)"
    by (simp add: marker_key_of_def exampleArrow_def)
  have live: "map_of (markers ?mc) (marker_key_of (exampleArrow 1.0000005)) = Some ?mn"
    unfolding k by (rule process_first[OF a])
  have ch: "sn_children (sceneNode ?mn) = [Marker_new (exampleArrow 1)]"
    by (rule newMarkerNode_props)
  have c: "markerConsistent (Marker_new (exampleArrow 1))" by (rule Marker_new_props)
  have u: "updateCompatible (Marker_new (exampleArrow 1)) (exampleArrow 1.0000005)"
    by (simp add: updateCompatible_def Marker_new_props exampleArrow_def pointCountSensitive_def
        marker_type_defs scaleChanged_def Marker_new_def setPose_def Let_def Vector3_def)
  note E = process_live_compatible[OF live ch c u a', of 1]
  have m': "map_of (markers (MarkerClient_processMessage ?mc (exampleArrow 1.0000005) 1))
              (marker_key_of (exampleArrow 1.0000005))
            = Some (?mn\<lparr>sceneNode := (sceneNode ?mn)\<lparr>sn_children :=
                       [snd (Marker_update (Marker_new (exampleArrow 1)) (exampleArrow 1.0000005))]\<rparr>,
                     updatedTime := 1\<rparr>)"
    unfolding E by (simp add: map_of_setMarker)
  have d': "disposedNodes (MarkerClient_processMessage ?mc (exampleArrow 1.0000005) 1)
            = disposedNodes ?mc"
    unfolding E by simp
  have inpl: "updatedInPlace ?mc (exampleArrow 1.0000005) 1"
    unfolding updatedInPlace_def live m' d' by simp
  have ncl: "\<not> updateCompatible_claim (exampleArrow 1) (exampleArrow 1.0000005)"
    by (simp add: updateCompatible_claim_def exampleArrow_def rebuildOnScale_def Vector3_def)
  from inpl ncl show ?thesis by blast
qed


lemma clientInv_iff:
  "clientInv mc \<longleftrightarrow>
     (\<forall>kv \<in> set (markers mc). uid (snd kv) < nextUid mc
        \<and> (\<exists>marker. sn_children (sceneNode (snd kv)) = [marker] \<and> markerConsistent marker))"
proof -
  have "(case xs of [marker] \<Rightarrow> markerConsistent marker | _ \<Rightarrow> False)
        \<longleftrightarrow> (\<exists>marker. xs = [marker] \<and> markerConsistent marker)" for xs :: "Marker list"
    by (cases xs; simp split: list.splits)
  then show ?thesis by (simp add: clientInv_def list_all_iff)
qed

lemma clientInv_live:
  assumes "clientInv mc" and "map_of (markers mc) k = Some mn"
  shows "uid mn < nextUid mc"
    and "\<exists>marker. sn_children (sceneNode mn) = [marker] \<and> markerConsistent marker"
proof -
  from assms(2) have "(k, mn) \<in> set (markers mc)" by (rule map_of_SomeD)
  with assms(1) show "uid mn < nextUid mc"
    and "\<exists>marker. sn_children (sceneNode mn) = [marker] \<and> markerConsistent marker"
    by (auto simp: clientInv_iff)
qed

lemma set_setMarker: "set (setMarker k v tbl) \<subseteq> insert (k, v) (set tbl)"
  by (auto simp: setMarker_def)

lemma clientInv_emptyClient: "clientInv emptyClient"
  by (simp add: clientInv_def emptyClient_def)

lemma clientInv_removeMarker: "clientInv mc \<Longrightarrow> clientInv (removeMarker mc k)"
  by (auto simp: clientInv_iff removeMarker_def split: option.splits)

lemma clientInv_update:
  assumes inv: "clientInv mc" and n: "nextUid mc \<le> nextUid mc'" and u: "uid v < nextUid mc'"
      and m: "\<exists>marker. sn_children (sceneNode v) = [marker] \<and> markerConsistent marker"
      and sub: "set tbl \<subseteq> set (markers mc)"
      and mk: "markers mc' = setMarker k v (setMarker k v tbl)"
  shows "clientInv mc'"
proof -
  have s: "set (markers mc') \<subseteq> insert (k, v) (set (markers mc))"
    unfolding mk
    using set_setMarker[of k v "setMarker k v tbl"] set_setMarker[of k v tbl] sub by blast
  have "uid (snd kv) < nextUid mc'
        \<and> (\<exists>marker. sn_children (sceneNode (snd kv)) = [marker] \<and> markerConsistent marker)"
    if "kv \<in> set (markers mc')" for kv
  proof (cases "kv = (k, v)")
    case True
    then show ?thesis using u m by simp
  next
    case False
    with that s have "kv \<in> set (markers mc)" by blast
    with inv n show ?thesis by (fastforce simp: clientInv_iff)
  qed
  then show ?thesis unfolding clientInv_iff by blast
qed

lemma clientInv_process:
  assumes inv: "clientInv mc"
  shows "clientInv (MarkerClient_processMessage mc message now)"
proof (cases "action message = 0")
  case True
  have new: "\<exists>marker. sn_children (sceneNode (newMarkerNode mc message now)) = [marker]
              \<and> markerConsistent marker"
    by (simp add: newMarkerNode_props Marker_new_props)
  show ?thesis
  proof (cases "map_of (markers mc) (marker_key_of message)")
    case None
    show ?thesis
      by (rule clientInv_update[OF inv _ _ new, of _ "markers mc" "marker_key_of message"])
         (simp_all add: process_absent[OF None True] newMarkerNode_props)
  next
    case (Some mn)
    from clientInv_live[OF inv Some] obtain marker where
      fresh: "uid mn < nextUid mc" and ch: "sn_children (sceneNode mn) = [marker]"
      and c: "markerConsistent marker" by blast
    show ?thesis
    proof (cases "updateCompatible marker message")
      case u: True
      let ?mn' = "mn\<lparr>sceneNode := (sceneNode mn)\<lparr>sn_children := [snd (Marker_update marker message)]\<rparr>,
                       updatedTime := now\<rparr>"
      have new': "\<exists>marker. sn_children (sceneNode ?mn') = [marker] \<and> markerConsistent marker"
        using Marker_update_result(3)[OF c u] by simp
      show ?thesis
        by (rule clientInv_update[OF inv _ _ new', of _ "markers mc" "marker_key_of message"])
           (simp_all add: process_live_compatible[OF Some ch c u True] fresh)
    next
      case u: False
      show ?thesis
        by (rule clientInv_update[OF inv _ _ new,
              of _ "filter (\<lambda>kv. fst kv \<noteq> marker_key_of message) (markers mc)"
                 "marker_key_of message"])
           (simp_all add: process_live_incompatible[OF Some ch c u True] newMarkerNode_props)
    qed
  qed
next
  case False
  then show ?thesis
    using inv clientInv_removeMarker[OF inv, of "marker_key_of message"]
    by (simp add: MarkerClient_processMessage_def Let_def removeAllMarkers_def clientInv_def)
qed


end
